theory Spec2Isabelle
  imports Main
begin

section \<open>JavaScript values and exceptions\<close>

text \<open>
  The handlers and the client helper exchange JSON texts and look properties up in the
  values parsed from them. A value is \<open>undefined\<close> or a JSON value. A string is held
  as the bytes of its text in UTF-8, as it travels in a request or a response; a
  surrogate code unit without its partner, which a JavaScript string may hold, is held in
  the generalised form of the encoding (three bytes, the first one ED), so that different
  strings are different byte lists. A number is kept as the literal it
  was written with, since no function of this development computes with a parsed number.
  An object is the list of its members in source order; where a key is repeated, the
  last member is the value of the property.
\<close>

datatype jsval =
    Undefined
  | JNull
  | JBool bool
  | JNum string
  | JStr string
  | JArr "jsval list"
  | JObj "(string \<times> jsval) list"

text \<open>
  What the source can throw (\<open>Error m\<close> is \<open>new Error(m)\<close>). \<open>Unmodelled\<close> is not an exception of
  the program: it marks an input on which the program's result depends on a part of the
  runtime that this development leaves out (the conversion of a number, an array or an
  object to a property key or to a message).
\<close>

datatype exn =
    SyntaxError
  | TypeError
  | PrismaError
  | BcryptError
  | Error string
  | Unmodelled

subsection \<open>Truthiness and property access\<close>

definition is_digit :: "char \<Rightarrow> bool" where
  "is_digit c = (48 \<le> (of_char c :: nat) \<and> (of_char c :: nat) \<le> 57)"

definition str_truthy :: "string \<Rightarrow> bool" where
  "str_truthy s = (s \<noteq> [])"

text \<open>
  \<open>ToBoolean\<close>. A number literal is zero when its mantissa has no digit but 0 (the
  exponent starts at the first e or E); a literal so small that it rounds to zero is
  not told apart from other nonzero literals.
\<close>

definition num_is_zero :: "string \<Rightarrow> bool" where
  "num_is_zero lit =
     (\<forall>c \<in> set (takeWhile (\<lambda>c. c \<noteq> CHR ''e'' \<and> c \<noteq> CHR ''E'') lit).
        is_digit c \<longrightarrow> c = CHR ''0'')"

fun truthy :: "jsval \<Rightarrow> bool" where
  "truthy Undefined = False"
| "truthy JNull = False"
| "truthy (JBool b) = b"
| "truthy (JNum lit) = (\<not> num_is_zero lit)"
| "truthy (JStr s) = str_truthy s"
| "truthy (JArr _) = True"
| "truthy (JObj _) = True"

text \<open>
  \<open>v.k\<close> for a value \<open>v\<close> that is neither null nor undefined, and a key \<open>k\<close> that no
  prototype defines (the keys read here are email, password, action, title, content,
  category, tags, userId and role): an own property of an object, undefined otherwise.
\<close>

fun get_prop :: "jsval \<Rightarrow> string \<Rightarrow> jsval" where
  "get_prop (JObj ms) k = (case map_of (rev ms) k of Some v \<Rightarrow> v | None \<Rightarrow> Undefined)"
| "get_prop _ k = Undefined"

section \<open>JSON.parse\<close>

subsection \<open>Tokens\<close>

datatype token =
    TLBrace | TRBrace | TLBrack | TRBrack | TColon | TComma
  | TStr string | TNum string | TLit jsval

definition is_ws :: "char \<Rightarrow> bool" where
  "is_ws c = (c = CHR 0x20 \<or> c = CHR 0x09 \<or> c = CHR 0x0A \<or> c = CHR 0x0D)"

definition is_alpha :: "char \<Rightarrow> bool" where
  "is_alpha c = (let n = (of_char c :: nat) in (65 \<le> n \<and> n \<le> 90) \<or> (97 \<le> n \<and> n \<le> 122))"

definition word_char :: "char \<Rightarrow> bool" where
  "word_char c = (is_digit c \<or> is_alpha c \<or> c = CHR ''+'' \<or> c = CHR ''-'' \<or> c = CHR ''.'')"

definition punct :: "char \<Rightarrow> token option" where
  "punct c =
     (if c = CHR ''{'' then Some TLBrace else if c = CHR ''}'' then Some TRBrace
      else if c = CHR ''['' then Some TLBrack else if c = CHR '']'' then Some TRBrack
      else if c = CHR '':'' then Some TColon else if c = CHR '','' then Some TComma
      else None)"

text \<open>The number grammar: \<open>-? (0 | [1-9][0-9]*) (. [0-9]+)? ([eE] [+-]? [0-9]+)?\<close>.\<close>

definition num_exp :: "string \<Rightarrow> bool" where
  "num_exp s =
     (case s of
        [] \<Rightarrow> True
      | c # t \<Rightarrow>
          (c = CHR ''e'' \<or> c = CHR ''E'') \<and>
          (let ds = (case t of
                       [] \<Rightarrow> []
                     | d # t' \<Rightarrow> if d = CHR ''+'' \<or> d = CHR ''-'' then t' else t)
           in ds \<noteq> [] \<and> list_all is_digit ds))"

definition num_frac :: "string \<Rightarrow> bool" where
  "num_frac s =
     (case s of
        [] \<Rightarrow> True
      | c # t \<Rightarrow>
          if c = CHR ''.''
          then takeWhile is_digit t \<noteq> [] \<and> num_exp (dropWhile is_digit t)
          else num_exp s)"

definition num_int :: "string \<Rightarrow> bool" where
  "num_int s =
     (case s of
        [] \<Rightarrow> False
      | c # t \<Rightarrow>
          if c = CHR ''0'' then num_frac t
          else if is_digit c then num_frac (dropWhile is_digit t)
          else False)"

definition is_json_number :: "string \<Rightarrow> bool" where
  "is_json_number s =
     (case s of [] \<Rightarrow> False | c # t \<Rightarrow> if c = CHR ''-'' then num_int t else num_int s)"

definition word_token :: "string \<Rightarrow> token option" where
  "word_token w =
     (if w = ''null'' then Some (TLit JNull)
      else if w = ''true'' then Some (TLit (JBool True))
      else if w = ''false'' then Some (TLit (JBool False))
      else if is_json_number w then Some (TNum w)
      else None)"

definition unescape :: "char \<Rightarrow> char option" where
  "unescape c =
     (if c = CHR 0x22 then Some (CHR 0x22)
      else if c = CHR 0x5C then Some (CHR 0x5C)
      else if c = CHR ''/'' then Some (CHR ''/'')
      else if c = CHR ''b'' then Some (CHR 0x08)
      else if c = CHR ''f'' then Some (CHR 0x0C)
      else if c = CHR ''n'' then Some (CHR 0x0A)
      else if c = CHR ''r'' then Some (CHR 0x0D)
      else if c = CHR ''t'' then Some (CHR 0x09)
      else None)"

text \<open>
  The bytes of one code point, and of one unpaired surrogate (from D800 to DFFF, which
  takes the three-byte form).
\<close>

definition wtf8 :: "nat \<Rightarrow> string" where
  "wtf8 n =
     (if n < 0x80 then [char_of n]
      else if n < 0x800 then [char_of (0xC0 + n div 64), char_of (0x80 + n mod 64)]
      else if n < 0x10000
      then [char_of (0xE0 + n div 4096), char_of (0x80 + n div 64 mod 64),
            char_of (0x80 + n mod 64)]
      else [char_of (0xF0 + n div 262144), char_of (0x80 + n div 4096 mod 64),
            char_of (0x80 + n div 64 mod 64), char_of (0x80 + n mod 64)])"

text \<open>
  Whether three bytes are an unpaired surrogate, and which: the lead byte is ED and the
  second byte is A0 or above.
\<close>

definition surrogate_of :: "char \<Rightarrow> char \<Rightarrow> char \<Rightarrow> nat option" where
  "surrogate_of b1 b2 b3 =
     (if b1 = CHR 0xED \<and> 0xA0 \<le> (of_char b2 :: nat) \<and> (of_char b2 :: nat) < 0xC0 \<and>
         0x80 \<le> (of_char b3 :: nat) \<and> (of_char b3 :: nat) < 0xC0
      then Some (0xD000 + ((of_char b2 :: nat) - 0x80) * 64 + ((of_char b3 :: nat) - 0x80))
      else None)"

text \<open>
  A code unit given by a u escape (a backslash, u and four hex digits) is appended to the string read so far (its
  bytes reversed). A low surrogate that follows a high one completes a pair: the two
  are one code point.
\<close>

definition push_unit :: "string \<Rightarrow> nat \<Rightarrow> string" where
  "push_unit acc n =
     (case acc of
        b3 # b2 # b1 # acc' \<Rightarrow>
          (case surrogate_of b1 b2 b3 of
             Some hi \<Rightarrow>
               if hi < 0xDC00 \<and> 0xDC00 \<le> n \<and> n < 0xE000
               then rev (wtf8 (0x10000 + (hi - 0xD800) * 0x400 + (n - 0xDC00))) @ acc'
               else rev (wtf8 n) @ acc
           | None \<Rightarrow> rev (wtf8 n) @ acc)
      | _ \<Rightarrow> rev (wtf8 n) @ acc)"

definition hex_digit :: "char \<Rightarrow> nat option" where
  "hex_digit c =
     (let n = (of_char c :: nat)
      in if 48 \<le> n \<and> n \<le> 57 then Some (n - 48)
         else if 65 \<le> n \<and> n \<le> 70 then Some (n - 55)
         else if 97 \<le> n \<and> n \<le> 102 then Some (n - 87)
         else None)"

subsection \<open>The lexer\<close>

text \<open>
  One pass over the characters. A word is a maximal run of letters, digits, signs and
  dots; it must be one of the three literals or a number. In a JSON text two such tokens
  never touch, so the runs are the tokens.
\<close>

datatype lmode =
    LDefault
  | LWord string
  | LString string
  | LEscape string
  | LUnicode string "nat list"

type_synonym lstate = "lmode \<times> token list"

definition default_char :: "token list \<Rightarrow> char \<Rightarrow> exn + lstate" where
  "default_char ts c =
     (if is_ws c then Inr (LDefault, ts)
      else if c = CHR 0x22 then Inr (LString [], ts)
      else case punct c of
             Some t \<Rightarrow> Inr (LDefault, t # ts)
           | None \<Rightarrow> if word_char c then Inr (LWord [c], ts) else Inl SyntaxError)"

fun lex_step :: "lstate \<Rightarrow> char \<Rightarrow> exn + lstate" where
  "lex_step (LDefault, ts) c = default_char ts c"
| "lex_step (LWord w, ts) c =
     (if word_char c then Inr (LWord (c # w), ts)
      else case word_token (rev w) of
             None \<Rightarrow> Inl SyntaxError
           | Some t \<Rightarrow> default_char (t # ts) c)"
| "lex_step (LString acc, ts) c =
     (if c = CHR 0x22 then Inr (LDefault, TStr (rev acc) # ts)
      else if c = CHR 0x5C then Inr (LEscape acc, ts)
      else if (of_char c :: nat) < 32 then Inl SyntaxError
      else Inr (LString (c # acc), ts))"
| "lex_step (LEscape acc, ts) c =
     (if c = CHR ''u'' then Inr (LUnicode acc [], ts)
      else case unescape c of
             Some d \<Rightarrow> Inr (LString (d # acc), ts)
           | None \<Rightarrow> Inl SyntaxError)"
| "lex_step (LUnicode acc hs, ts) c =
     (case hex_digit c of
        None \<Rightarrow> Inl SyntaxError
      | Some h \<Rightarrow>
          if length hs < 3 then Inr (LUnicode acc (hs @ [h]), ts)
          else Inr (LString (push_unit acc (foldl (\<lambda>a d. 16 * a + d) 0 (hs @ [h]))), ts))"

fun lex_run :: "lstate \<Rightarrow> string \<Rightarrow> exn + lstate" where
  "lex_run st [] = Inr st"
| "lex_run st (c # cs) =
     (case lex_step st c of Inl e \<Rightarrow> Inl e | Inr st' \<Rightarrow> lex_run st' cs)"

fun lex_end :: "lstate \<Rightarrow> exn + token list" where
  "lex_end (LDefault, ts) = Inr (rev ts)"
| "lex_end (LWord w, ts) =
     (case word_token (rev w) of
        None \<Rightarrow> Inl SyntaxError
      | Some t \<Rightarrow> Inr (rev (t # ts)))"
| "lex_end (_, ts) = Inl SyntaxError"

definition lex :: "string \<Rightarrow> exn + token list" where
  "lex s = (case lex_run (LDefault, []) s of Inl e \<Rightarrow> Inl e | Inr st \<Rightarrow> lex_end st)"

subsection \<open>The parser\<close>

text \<open>
  A pushdown automaton over the tokens. A frame is an array or an object under
  construction (its elements or members reversed; an object holds the key that waits for
  its value).
\<close>

datatype frame =
    FArr "jsval list"
  | FObj "(string \<times> jsval) list" "string option"

datatype pexp =
    ExpValue
  | ExpValueOrClose
  | ExpKey
  | ExpKeyOrClose
  | ExpColon
  | ExpCommaOrClose
  | Finished jsval

type_synonym pstate = "frame list \<times> pexp"

fun deliver :: "jsval \<Rightarrow> frame list \<Rightarrow> pstate option" where
  "deliver v [] = Some ([], Finished v)"
| "deliver v (FArr es # st) = Some (FArr (v # es) # st, ExpCommaOrClose)"
| "deliver v (FObj ms (Some k) # st) = Some (FObj ((k, v) # ms) None # st, ExpCommaOrClose)"
| "deliver v (FObj ms None # st) = None"

fun start_value :: "frame list \<Rightarrow> token \<Rightarrow> pstate option" where
  "start_value st (TLit v) = deliver v st"
| "start_value st (TStr s) = deliver (JStr s) st"
| "start_value st (TNum n) = deliver (JNum n) st"
| "start_value st TLBrack = Some (FArr [] # st, ExpValueOrClose)"
| "start_value st TLBrace = Some (FObj [] None # st, ExpKeyOrClose)"
| "start_value st _ = None"

fun close_frame :: "frame list \<Rightarrow> token \<Rightarrow> pstate option" where
  "close_frame (FArr es # st) TRBrack = deliver (JArr (rev es)) st"
| "close_frame (FObj ms None # st) TRBrace = deliver (JObj (rev ms)) st"
| "close_frame _ _ = None"

fun take_key :: "frame list \<Rightarrow> token \<Rightarrow> pstate option" where
  "take_key (FObj ms None # st) (TStr k) = Some (FObj ms (Some k) # st, ExpColon)"
| "take_key _ _ = None"

fun parse_step :: "pstate \<Rightarrow> token \<Rightarrow> pstate option" where
  "parse_step (st, ExpValue) t = start_value st t"
| "parse_step (st, ExpValueOrClose) t =
     (if t = TRBrack then close_frame st t else start_value st t)"
| "parse_step (st, ExpKey) t = take_key st t"
| "parse_step (st, ExpKeyOrClose) t =
     (if t = TRBrace then close_frame st t else take_key st t)"
| "parse_step (st, ExpColon) t = (if t = TColon then Some (st, ExpValue) else None)"
| "parse_step (st, ExpCommaOrClose) t =
     (if t = TComma
      then (case st of
              FArr _ # _ \<Rightarrow> Some (st, ExpValue)
            | FObj _ _ # _ \<Rightarrow> Some (st, ExpKey)
            | [] \<Rightarrow> None)
      else close_frame st t)"
| "parse_step (st, Finished v) t = None"

fun parse_run :: "pstate \<Rightarrow> token list \<Rightarrow> pstate option" where
  "parse_run ps [] = Some ps"
| "parse_run ps (t # ts) =
     (case parse_step ps t of None \<Rightarrow> None | Some ps' \<Rightarrow> parse_run ps' ts)"

definition JSON_parse :: "string \<Rightarrow> exn + jsval" where
  "JSON_parse s =
     (case lex s of
        Inl e \<Rightarrow> Inl e
      | Inr ts \<Rightarrow>
          (case parse_run ([], ExpValue) ts of
             Some ([], Finished v) \<Rightarrow> Inr v
           | _ \<Rightarrow> Inl SyntaxError))"

section \<open>JSON.stringify\<close>

definition hex_char :: "nat \<Rightarrow> char" where
  "hex_char n = (if n < 10 then char_of (48 + n) else char_of (87 + n))"

definition escape_char :: "char \<Rightarrow> string" where
  "escape_char c =
     (if c = CHR 0x22 then [CHR 0x5C, CHR 0x22]
      else if c = CHR 0x5C then [CHR 0x5C, CHR 0x5C]
      else if c = CHR 0x08 then [CHR 0x5C, CHR ''b'']
      else if c = CHR 0x0C then [CHR 0x5C, CHR ''f'']
      else if c = CHR 0x0A then [CHR 0x5C, CHR ''n'']
      else if c = CHR 0x0D then [CHR 0x5C, CHR ''r'']
      else if c = CHR 0x09 then [CHR 0x5C, CHR ''t'']
      else if (of_char c :: nat) < 32
      then [CHR 0x5C, CHR ''u'', CHR ''0'', CHR ''0'',
            hex_char ((of_char c :: nat) div 16), hex_char ((of_char c :: nat) mod 16)]
      else [c])"

text \<open>
  The characters of a string between its quotes: an unpaired surrogate is written as a
  u escape, every other character as \<open>escape_char\<close> has it.
\<close>

fun escape_str :: "string \<Rightarrow> string" where
  "escape_str (b1 # b2 # b3 # cs) =
     (case surrogate_of b1 b2 b3 of
        Some n \<Rightarrow>
          [CHR 0x5C, CHR ''u'', hex_char (n div 4096), hex_char (n div 256 mod 16),
           hex_char (n div 16 mod 16), hex_char (n mod 16)] @ escape_str cs
      | None \<Rightarrow> escape_char b1 @ escape_str (b2 # b3 # cs))"
| "escape_str [c1, c2] = escape_char c1 @ escape_char c2"
| "escape_str [c] = escape_char c"
| "escape_str [] = []"

definition quote :: "string \<Rightarrow> string" where
  "quote s = [CHR 0x22] @ escape_str s @ [CHR 0x22]"

fun join :: "string list \<Rightarrow> string" where
  "join [] = []"
| "join [x] = x"
| "join (x # y # ys) = x @ '','' @ join (y # ys)"

text \<open>
  The text of a value inside a structure: an undefined array element is written null, a
  member whose value is undefined is left out. A number is written as its literal; the
  values the handlers serialise hold strings and null only.
\<close>

fun ser :: "jsval \<Rightarrow> string" where
  "ser Undefined = ''null''"
| "ser JNull = ''null''"
| "ser (JBool b) = (if b then ''true'' else ''false'')"
| "ser (JNum lit) = lit"
| "ser (JStr s) = quote s"
| "ser (JArr xs) = ''['' @ join (map ser xs) @ '']''"
| "ser (JObj ms) =
     ''{'' @ join (map (\<lambda>m. quote (fst m) @ '':'' @ ser (snd m))
                     (filter (\<lambda>m. snd m \<noteq> Undefined) ms)) @ ''}''"

definition JSON_stringify :: "jsval \<Rightarrow> string option" where
  "JSON_stringify v = (if v = Undefined then None else Some (ser v))"

section \<open>The runtime and the storage\<close>

text \<open>
  The libraries the handlers call and the environment they read are parameters of the
  model: the signing primitive (\<open>jwt.sign\<close>, \<open>jwt.verify\<close>, which throws on a token
  it rejects), the password-hash comparison (\<open>bcrypt.compare\<close>), the environment
  variable JWT_SECRET, and the identifiers the storage gives to new rows.
\<close>

record runtime =
  env_JWT_SECRET :: "string option"
  jwt_sign :: "jsval \<Rightarrow> string \<Rightarrow> string"
  jwt_verify :: "string \<Rightarrow> string \<Rightarrow> exn + jsval"
  bcrypt_compare :: "string \<Rightarrow> string \<Rightarrow> bool"
  new_id :: "nat \<Rightarrow> string"

text \<open>\<open>const JWT_SECRET = process.env.JWT_SECRET || 'your-secret-key'\<close>, in both handlers.\<close>

definition JWT_SECRET :: "runtime \<Rightarrow> string" where
  "JWT_SECRET rt =
     (case env_JWT_SECRET rt of
        None \<Rightarrow> ''your-secret-key''
      | Some s \<Rightarrow> if str_truthy s then s else ''your-secret-key'')"

text \<open>
  Modelled from the spec: the storage schema (prisma/schema.prisma is not among the
  sources) and the ORM operations the handlers call on it. An Identity is
  {id, name, email, role, avatarUrl?} and a stored password hash; a Tag is {id, name},
  unique by name; an Article carries the columns the create writes (title, content,
  category, authorId), its id, and its tags, a many-to-many relation recorded here by
  the tag's unique name. Columns filled by schema defaults (excerpt, published, views,
  likes, timestamps) are left out.
\<close>

record user =
  user_id :: string
  user_name :: string
  user_email :: string
  user_role :: string
  user_avatarUrl :: "string option"
  user_password :: string

record tag =
  tag_id :: string
  tag_name :: string

record post =
  post_id :: string
  post_title :: string
  post_content :: string
  post_category :: string
  post_authorId :: string
  post_tags :: "string list"

record db =
  db_users :: "user list"
  db_posts :: "post list"
  db_tags :: "tag list"
  db_next :: nat

text \<open>
  Modelled from the spec: \<open>prisma.user.findUnique({ where: { email } })\<close>. The filter
  must be a string (the client rejects any other value, undefined included); the result
  is the identity with that email, or null.
\<close>

definition user_findUnique :: "db \<Rightarrow> jsval \<Rightarrow> exn + user option" where
  "user_findUnique d email =
     (case email of
        JStr e \<Rightarrow> Inr (find (\<lambda>u. user_email u = e) (db_users d))
      | _ \<Rightarrow> Inl PrismaError)"

text \<open>
  Modelled from the spec: get-or-create by name. One \<open>connectOrCreate\<close> entry resolves
  to the existing tag of that name or creates it, then links it to the article; linking
  a tag that is linked already changes nothing.
\<close>

definition connect_or_create :: "runtime \<Rightarrow> db \<times> string list \<Rightarrow> string \<Rightarrow> db \<times> string list" where
  "connect_or_create rt acc name =
     (let d = fst acc; linked = snd acc;
          d' = (case find (\<lambda>t. tag_name t = name) (db_tags d) of
                  Some t \<Rightarrow> d
                | None \<Rightarrow>
                    d\<lparr>db_tags := db_tags d @ [\<lparr>tag_id = new_id rt (db_next d), tag_name = name\<rparr>],
                      db_next := Suc (db_next d)\<rparr>)
      in (d', if name \<in> set linked then linked else linked @ [name]))"

fun as_string :: "jsval \<Rightarrow> exn + string" where
  "as_string (JStr s) = Inr s"
| "as_string _ = Inl PrismaError"

fun as_strings :: "jsval list \<Rightarrow> exn + string list" where
  "as_strings [] = Inr []"
| "as_strings (v # vs) =
     (case as_string v of
        Inl e \<Rightarrow> Inl e
      | Inr s \<Rightarrow> (case as_strings vs of Inl e \<Rightarrow> Inl e | Inr ss \<Rightarrow> Inr (s # ss)))"

text \<open>
  Modelled from the spec: \<open>prisma.post.create\<close> with the data of the source: the
  columns must be strings and the tag names strings, the category must be one of
  tutorial, tech, dataset and code, the author must be a stored identity (the relation's
  foreign key); a failed create throws and leaves the storage as it was. The arguments are title, content, category, authorId and the names of the
  \<open>connectOrCreate\<close> entries.
\<close>

definition categories :: "string list" where
  "categories = [''tutorial'', ''tech'', ''dataset'', ''code'']"

definition post_create ::
  "runtime \<Rightarrow> db \<Rightarrow> jsval \<Rightarrow> jsval \<Rightarrow> jsval \<Rightarrow> jsval \<Rightarrow> jsval list \<Rightarrow> exn + post \<times> db" where
  "post_create rt d title content category authorId names =
     (case as_strings [title, content, category, authorId] of
        Inl e \<Rightarrow> Inl e
      | Inr cols \<Rightarrow>
          (case as_strings names of
             Inl e \<Rightarrow> Inl e
           | Inr ns \<Rightarrow>
               if cols ! 2 \<notin> set categories then Inl PrismaError
               else if find (\<lambda>u. user_id u = cols ! 3) (db_users d) = None
               then Inl PrismaError
               else
                 (let pid = new_id rt (db_next d);
                      d1 = d\<lparr>db_next := Suc (db_next d)\<rparr>;
                      r = foldl (connect_or_create rt) (d1, []) ns;
                      p = \<lparr>post_id = pid, post_title = cols ! 0, post_content = cols ! 1,
                           post_category = cols ! 2, post_authorId = cols ! 3,
                           post_tags = snd r\<rparr>
                  in Inr (p, (fst r)\<lparr>db_posts := db_posts (fst r) @ [p]\<rparr>))))"

text \<open>
  Modelled from the spec: what a query returns for an article with
  \<open>include: { author: { select: { id, name, email, avatarUrl } }, tags: true }\<close>.
\<close>

definition opt_json :: "string option \<Rightarrow> jsval" where
  "opt_json x = (case x of None \<Rightarrow> JNull | Some s \<Rightarrow> JStr s)"

definition author_select :: "user \<Rightarrow> jsval" where
  "author_select u =
     JObj [(''id'', JStr (user_id u)), (''name'', JStr (user_name u)),
           (''email'', JStr (user_email u)), (''avatarUrl'', opt_json (user_avatarUrl u))]"

definition tag_json :: "tag \<Rightarrow> jsval" where
  "tag_json t = JObj [(''id'', JStr (tag_id t)), (''name'', JStr (tag_name t))]"

definition post_author :: "db \<Rightarrow> post \<Rightarrow> jsval" where
  "post_author d p =
     (case find (\<lambda>u. user_id u = post_authorId p) (db_users d) of
        None \<Rightarrow> JNull
      | Some u \<Rightarrow> author_select u)"

definition post_tag_rows :: "db \<Rightarrow> post \<Rightarrow> tag list" where
  "post_tag_rows d p = filter (\<lambda>t. tag_name t \<in> set (post_tags p)) (db_tags d)"

definition post_json :: "db \<Rightarrow> post \<Rightarrow> jsval" where
  "post_json d p =
     JObj [(''id'', JStr (post_id p)), (''title'', JStr (post_title p)),
           (''content'', JStr (post_content p)), (''category'', JStr (post_category p)),
           (''authorId'', JStr (post_authorId p)), (''author'', post_author d p),
           (''tags'', JArr (map tag_json (post_tag_rows d p)))]"

text \<open>The identity as \<open>findUnique\<close> returns it to the login handler: every column.\<close>

definition user_json :: "user \<Rightarrow> (string \<times> jsval) list" where
  "user_json u =
     [(''id'', JStr (user_id u)), (''name'', JStr (user_name u)),
      (''email'', JStr (user_email u)), (''role'', JStr (user_role u)),
      (''avatarUrl'', opt_json (user_avatarUrl u)), (''password'', JStr (user_password u))]"

section \<open>Requests and responses\<close>

record event =
  httpMethod :: string
  headers_authorization :: "string option"
  body :: "string option"

record response =
  statusCode :: nat
  resp_body :: "string option"

definition message :: "string \<Rightarrow> string option" where
  "message m = JSON_stringify (JObj [(''message'', JStr m)])"

text \<open>\<open>event.body || '{}'\<close>\<close>

definition body_or_empty :: "event \<Rightarrow> string" where
  "body_or_empty ev =
     (case body ev of None \<Rightarrow> ''{}'' | Some s \<Rightarrow> if str_truthy s then s else ''{}'')"

text \<open>
  The pattern \<open>const { ... } = JSON.parse(...)\<close>: the text is parsed, and a parsed null
  cannot be destructured.
\<close>

definition parse_object :: "string \<Rightarrow> exn + jsval" where
  "parse_object s =
     (case JSON_parse s of
        Inl e \<Rightarrow> Inl e
      | Inr v \<Rightarrow> if v = JNull then Inl TypeError else Inr v)"

section \<open>The Credential Issuer: netlify/functions/auth.ts\<close>

text \<open>
  \<open>bcrypt.compare(password, user.password)\<close> rejects an argument that is not a string.
\<close>

definition compare_password :: "runtime \<Rightarrow> jsval \<Rightarrow> string \<Rightarrow> exn + bool" where
  "compare_password rt password hash =
     (case password of
        JStr p \<Rightarrow> Inr (bcrypt_compare rt p hash)
      | _ \<Rightarrow> Inl BcryptError)"

text \<open>\<open>jwt.sign({ userId: user.id }, JWT_SECRET)\<close>\<close>

definition issue_token :: "runtime \<Rightarrow> user \<Rightarrow> string" where
  "issue_token rt u = jwt_sign rt (JObj [(''userId'', JStr (user_id u))]) (JWT_SECRET rt)"

text \<open>\<open>{ token, user: { ...user, password: undefined } }\<close>\<close>

definition login_body :: "string \<Rightarrow> user \<Rightarrow> jsval" where
  "login_body token u =
     JObj [(''token'', JStr token),
           (''user'', JObj (map (\<lambda>m. if fst m = ''password'' then (fst m, Undefined) else m)
                                (user_json u)))]"

text \<open>The body of the \<open>try\<close> block.\<close>

definition auth_try :: "runtime \<Rightarrow> db \<Rightarrow> event \<Rightarrow> exn + response" where
  "auth_try rt d ev =
     (case parse_object (body_or_empty ev) of
        Inl e \<Rightarrow> Inl e
      | Inr b \<Rightarrow>
          (let email = get_prop b ''email'';
               password = get_prop b ''password'';
               action = get_prop b ''action''
           in if action = JStr ''login''
              then (case user_findUnique d email of
                      Inl e \<Rightarrow> Inl e
                    | Inr None \<Rightarrow>
                        Inr \<lparr>statusCode = 401, resp_body = message ''Invalid credentials''\<rparr>
                    | Inr (Some u) \<Rightarrow>
                        (case compare_password rt password (user_password u) of
                           Inl e \<Rightarrow> Inl e
                         | Inr ok \<Rightarrow>
                             if \<not> ok
                             then Inr \<lparr>statusCode = 401,
                                       resp_body = message ''Invalid credentials''\<rparr>
                             else Inr \<lparr>statusCode = 200,
                                       resp_body =
                                         JSON_stringify (login_body (issue_token rt u) u)\<rparr>))
              else Inr \<lparr>statusCode = 400, resp_body = message ''Invalid action''\<rparr>))"

definition auth_handler :: "runtime \<Rightarrow> db \<Rightarrow> event \<Rightarrow> response" where
  "auth_handler rt d ev =
     (if httpMethod ev \<noteq> ''POST''
      then \<lparr>statusCode = 405, resp_body = message ''Method not allowed''\<rparr>
      else case auth_try rt d ev of
             Inr r \<Rightarrow> r
           | Inl e \<Rightarrow> \<lparr>statusCode = 500, resp_body = message ''Internal server error''\<rparr>)"

section \<open>The Resource Handler: netlify/functions/posts.ts\<close>

definition verifyToken :: "runtime \<Rightarrow> string \<Rightarrow> jsval" where
  "verifyToken rt token =
     (case jwt_verify rt token (JWT_SECRET rt) of
        Inr payload \<Rightarrow> payload
      | Inl e \<Rightarrow> JNull)"

text \<open>\<open>s.split(' ')\<close>\<close>

fun split_space :: "string \<Rightarrow> string list" where
  "split_space [] = [[]]"
| "split_space (c # cs) =
     (if c = CHR '' '' then [] # split_space cs
      else case split_space cs of
             w # ws \<Rightarrow> (c # w) # ws
           | [] \<Rightarrow> [[c]])"

text \<open>\<open>event.headers.authorization?.split(' ')[1]\<close>, None for undefined.\<close>

definition bearer_token :: "event \<Rightarrow> string option" where
  "bearer_token ev =
     (case headers_authorization ev of
        None \<Rightarrow> None
      | Some h \<Rightarrow> (case split_space h of _ # t # _ \<Rightarrow> Some t | _ \<Rightarrow> None))"

text \<open>\<open>token ? verifyToken(token) : null\<close>\<close>

definition decoded :: "runtime \<Rightarrow> event \<Rightarrow> jsval" where
  "decoded rt ev =
     (case bearer_token ev of
        None \<Rightarrow> JNull
      | Some t \<Rightarrow> if str_truthy t then verifyToken rt t else JNull)"

text \<open>\<open>tags.map(...)\<close> on a parsed value: only an array has a \<open>map\<close> to call.\<close>

definition tags_map :: "jsval \<Rightarrow> exn + jsval list" where
  "tags_map tags = (case tags of JArr xs \<Rightarrow> Inr xs | _ \<Rightarrow> Inl TypeError)"

text \<open>The POST case once the token is accepted, up to the created article.\<close>

definition create_post :: "runtime \<Rightarrow> db \<Rightarrow> jsval \<Rightarrow> event \<Rightarrow> exn + post \<times> db" where
  "create_post rt d dec ev =
     (case parse_object (body_or_empty ev) of
        Inl e \<Rightarrow> Inl e
      | Inr b \<Rightarrow>
          (let title = get_prop b ''title'';
               content = get_prop b ''content'';
               category = get_prop b ''category'';
               tags = get_prop b ''tags''
           in case tags_map tags of
                Inl e \<Rightarrow> Inl e
              | Inr names \<Rightarrow>
                  post_create rt d title content category (get_prop dec ''userId'') names))"

definition posts_handler :: "runtime \<Rightarrow> db \<Rightarrow> event \<Rightarrow> response \<times> db" where
  "posts_handler rt d ev =
     (let dec = decoded rt ev
      in if httpMethod ev = ''GET''
         then (\<lparr>statusCode = 200,
                 resp_body = JSON_stringify (JArr (map (post_json d) (db_posts d)))\<rparr>, d)
         else if httpMethod ev = ''POST''
         then (if \<not> truthy dec
               then (\<lparr>statusCode = 401, resp_body = message ''Unauthorized''\<rparr>, d)
               else case create_post rt d dec ev of
                      Inr (p, d') \<Rightarrow>
                        (\<lparr>statusCode = 201, resp_body = JSON_stringify (post_json d' p)\<rparr>, d')
                    | Inl e \<Rightarrow>
                        (\<lparr>statusCode = 500,
                          resp_body = message ''Internal server error''\<rparr>, d))
         else (\<lparr>statusCode = 405, resp_body = message ''Method not allowed''\<rparr>, d))"

section \<open>The client: src/lib/api.ts\<close>

type_synonym storage = "string \<rightharpoonup> string"

text \<open>
  The fallback message of \<open>handleResponse\<close>, four CJK characters in the source, as its
  UTF-8 bytes.
\<close>

definition request_failed :: string where
  "request_failed =
     [CHR 0xE8, CHR 0xAF, CHR 0xB7, CHR 0xE6, CHR 0xB1, CHR 0x82,
      CHR 0xE5, CHR 0xA4, CHR 0xB1, CHR 0xE8, CHR 0xB4, CHR 0xA5]"

text \<open>\<open>response.json()\<close>: the body parsed; a response without a body has no JSON text.\<close>

definition response_json :: "response \<Rightarrow> exn + jsval" where
  "response_json r = (case resp_body r of None \<Rightarrow> Inl SyntaxError | Some s \<Rightarrow> JSON_parse s)"

text \<open>
  \<open>handleResponse\<close>. \<open>response.ok\<close> is a status from 200 to 299. On another status the
  body's \<open>message\<close> is thrown, \<open>{}\<close> standing for a body that does not parse.
\<close>

definition handleResponse :: "response \<Rightarrow> exn + jsval" where
  "handleResponse r =
     (if \<not> (200 \<le> statusCode r \<and> statusCode r \<le> 299)
      then (let error = (case response_json r of Inl e \<Rightarrow> JObj [] | Inr v \<Rightarrow> v)
            in if error = JNull then Inl TypeError
               else (let m = get_prop error ''message''
                     in if \<not> truthy m then Inl (Error request_failed)
                        else case m of JStr t \<Rightarrow> Inl (Error t) | _ \<Rightarrow> Inl Unmodelled))
      else response_json r)"

text \<open>
  \<open>api.login\<close>: the request it sends to /auth, and the call itself against the
  Credential Issuer.
\<close>

definition login_request :: "string \<Rightarrow> string \<Rightarrow> event" where
  "login_request email password =
     \<lparr>httpMethod = ''POST'', headers_authorization = None,
      body = JSON_stringify (JObj [(''email'', JStr email), (''password'', JStr password)])\<rparr>"

definition api_login :: "runtime \<Rightarrow> db \<Rightarrow> string \<Rightarrow> string \<Rightarrow> exn + jsval" where
  "api_login rt d email password = handleResponse (auth_handler rt d (login_request email password))"

text \<open>\<open>utils.getCurrentUser\<close>\<close>

definition getCurrentUser :: "storage \<Rightarrow> exn + jsval" where
  "getCurrentUser st =
     (case st ''user'' of
        None \<Rightarrow> Inr JNull
      | Some userStr \<Rightarrow> if str_truthy userStr then JSON_parse userStr else Inr JNull)"

subsection \<open>The role table\<close>

text \<open>
  What \<open>roles[k]\<close> can be. \<open>roles\<close> is an object literal, so a key it does not hold is
  looked up in \<open>Object.prototype\<close>: a built-in function, or, for \<open>__proto__\<close>, the
  prototype itself.
\<close>

datatype propval = PUndefined | PNum nat | PFunction string | PObjectPrototype

definition object_prototype :: "string \<Rightarrow> propval" where
  "object_prototype k =
     (if k = ''constructor'' then PFunction ''Object''
      else if k \<in> set [''hasOwnProperty'', ''isPrototypeOf'', ''propertyIsEnumerable'',
                        ''toLocaleString'', ''toString'', ''valueOf'',
                        ''__defineGetter__'', ''__defineSetter__'',
                        ''__lookupGetter__'', ''__lookupSetter__'']
      then PFunction k
      else if k = ''__proto__'' then PObjectPrototype
      else PUndefined)"

definition roles :: "string \<Rightarrow> propval" where
  "roles k =
     (if k = ''admin'' then PNum 3
      else if k = ''teacher'' then PNum 2
      else if k = ''student'' then PNum 1
      else object_prototype k)"

text \<open>
  \<open>roles[v]\<close> for a value \<open>v\<close>: the key is \<open>v\<close> converted to a string. The conversion of
  a number, an array or an object is left out.
\<close>

fun roles_at :: "jsval \<Rightarrow> exn + propval" where
  "roles_at (JStr s) = Inr (roles s)"
| "roles_at Undefined = Inr (roles ''undefined'')"
| "roles_at JNull = Inr (roles ''null'')"
| "roles_at (JBool b) = Inr (roles (if b then ''true'' else ''false''))"
| "roles_at _ = Inl Unmodelled"

text \<open>
  \<open>a >= b\<close>. Both operands are converted to primitives: a built-in function to its
  source text, the prototype object to \<open>[object Object]\<close>. Two strings are compared by
  code units; otherwise both are converted to numbers, where undefined and these strings
  give NaN, and a comparison with NaN is false.
\<close>

fun prim_string :: "propval \<Rightarrow> string option" where
  "prim_string (PFunction name) = Some (''function '' @ name @ ''() { [native code] }'')"
| "prim_string PObjectPrototype = Some ''[object Object]''"
| "prim_string _ = None"

fun to_number :: "propval \<Rightarrow> nat option" where
  "to_number (PNum n) = Some n"
| "to_number _ = None"

fun str_lt :: "string \<Rightarrow> string \<Rightarrow> bool" where
  "str_lt [] [] = False"
| "str_lt [] (y # ys) = True"
| "str_lt (x # xs) [] = False"
| "str_lt (x # xs) (y # ys) =
     (if (of_char x :: nat) < of_char y then True
      else if (of_char y :: nat) < of_char x then False
      else str_lt xs ys)"

definition js_ge :: "propval \<Rightarrow> propval \<Rightarrow> bool" where
  "js_ge a b =
     (case (prim_string a, prim_string b) of
        (Some x, Some y) \<Rightarrow> \<not> str_lt x y
      | _ \<Rightarrow> (case (to_number a, to_number b) of
                (Some m, Some n) \<Rightarrow> n \<le> m
              | _ \<Rightarrow> False))"

text \<open>\<open>utils.hasPermission\<close>\<close>

definition hasPermission :: "storage \<Rightarrow> string \<Rightarrow> exn + bool" where
  "hasPermission st requiredRole =
     (case getCurrentUser st of
        Inl e \<Rightarrow> Inl e
      | Inr user \<Rightarrow>
          if \<not> truthy user then Inr False
          else (case roles_at (get_prop user ''role'') of
                  Inl e \<Rightarrow> Inl e
                | Inr a \<Rightarrow>
                    (case roles_at (JStr requiredRole) of
                       Inl e \<Rightarrow> Inl e
                     | Inr b \<Rightarrow> Inr (js_ge a b))))"

section \<open>Predicates of the properties\<close>

text \<open>Two storage states that differ at most in the stored password hashes.\<close>

definition strip_password :: "user \<Rightarrow> user" where
  "strip_password u = u\<lparr>user_password := []\<rparr>"

definition same_but_passwords :: "db \<Rightarrow> db \<Rightarrow> bool" where
  "same_but_passwords d1 d2 =
     (map strip_password (db_users d1) = map strip_password (db_users d2) \<and>
      db_posts d1 = db_posts d2 \<and> db_tags d1 = db_tags d2 \<and> db_next d1 = db_next d2)"

text \<open>The articles of a response value (a list for GET, one article for POST).\<close>

fun returned_articles :: "jsval \<Rightarrow> jsval list" where
  "returned_articles (JArr xs) = xs"
| "returned_articles v = [v]"

fun keys :: "jsval \<Rightarrow> string list" where
  "keys (JObj ms) = map fst ms"
| "keys _ = []"

section \<open>A sample runtime and storage\<close>

text \<open>
  A toy signing primitive (the token is the secret, a dot, and the user id), a toy hash
  (a \<open>#\<close> before the password) and identifiers counted in unary, with one stored
  identity. They serve to run the handlers on concrete requests.
\<close>

definition sample_sign :: "jsval \<Rightarrow> string \<Rightarrow> string" where
  "sample_sign payload secret =
     (case get_prop payload ''userId'' of JStr u \<Rightarrow> secret @ ''.'' @ u | _ \<Rightarrow> [])"

definition sample_verify :: "string \<Rightarrow> string \<Rightarrow> exn + jsval" where
  "sample_verify token secret =
     (if take (Suc (length secret)) token = secret @ ''.''
      then Inr (JObj [(''userId'', JStr (drop (Suc (length secret)) token))])
      else Inl (Error ''invalid signature''))"

definition sample_rt :: runtime where
  "sample_rt =
     \<lparr>env_JWT_SECRET = None, jwt_sign = sample_sign, jwt_verify = sample_verify,
      bcrypt_compare = (\<lambda>p h. h = CHR ''#'' # p), new_id = (\<lambda>n. replicate n CHR ''i'')\<rparr>"

definition ann :: user where
  "ann = \<lparr>user_id = ''u1'', user_name = ''Ann'', user_email = ''ann@x.org'',
          user_role = ''teacher'', user_avatarUrl = None, user_password = ''#pw''\<rparr>"

definition sample_db :: db where
  "sample_db = \<lparr>db_users = [ann], db_posts = [], db_tags = [], db_next = 1\<rparr>"

section \<open>Facts about JSON.parse\<close>

text \<open>
  \<open>JSON.parse\<close> returns a value or throws a SyntaxError, on every text: every escape
  has a value in the string, so no text is left out.
\<close>

lemma default_char_error: "default_char ts c = Inl e \<Longrightarrow> e = SyntaxError"
  by (auto simp: default_char_def split: if_splits option.splits)

lemma lex_step_error: "lex_step st c = Inl e \<Longrightarrow> e = SyntaxError"
proof (cases st)
  case (Pair m ts)
  then show "lex_step st c = Inl e \<Longrightarrow> e = SyntaxError"
    by (cases m) (auto dest: default_char_error split: if_splits option.splits)
qed

lemma lex_run_error: "lex_run st cs = Inl e \<Longrightarrow> e = SyntaxError"
proof (induction cs arbitrary: st)
  case Nil
  then show ?case by simp
next
  case (Cons c cs)
  then show ?case
    by (cases "lex_step st c") (auto dest: lex_step_error)
qed

lemma lex_end_error: "lex_end st = Inl e \<Longrightarrow> e = SyntaxError"
proof (cases st)
  case (Pair m ts)
  then show "lex_end st = Inl e \<Longrightarrow> e = SyntaxError"
    by (cases m) (auto split: option.splits)
qed

lemma JSON_parse_error: "JSON_parse s = Inl e \<Longrightarrow> e = SyntaxError"
  unfolding JSON_parse_def lex_def
  by (auto dest: lex_run_error lex_end_error
      split: sum.splits option.splits prod.splits list.splits pexp.splits)

section \<open>Facts about the storage operations\<close>

lemma find_None_tag: "(find (\<lambda>t. tag_name t = n) ts = None) = (n \<notin> tag_name ` set ts)"
  by (auto simp: find_None_iff)

lemma coc_users: "db_users (fst (connect_or_create rt acc n)) = db_users (fst acc)"
  by (simp add: connect_or_create_def Let_def split: option.splits)

lemma coc_posts: "db_posts (fst (connect_or_create rt acc n)) = db_posts (fst acc)"
  by (simp add: connect_or_create_def Let_def split: option.splits)

lemma fold_coc_users: "db_users (fst (foldl (connect_or_create rt) acc ns)) = db_users (fst acc)"
  by (induction ns arbitrary: acc) (simp_all add: coc_users)

lemma fold_coc_posts: "db_posts (fst (foldl (connect_or_create rt) acc ns)) = db_posts (fst acc)"
  by (induction ns arbitrary: acc) (simp_all add: coc_posts)

lemma coc_tags:
  "\<exists>new. db_tags (fst (connect_or_create rt acc n)) = db_tags (fst acc) @ new \<and>
         map tag_name new = (if n \<in> tag_name ` set (db_tags (fst acc)) then [] else [n])"
proof (cases "find (\<lambda>t. tag_name t = n) (db_tags (fst acc))")
  case None
  then show ?thesis
    using find_None_tag [of n "db_tags (fst acc)"]
    by (simp add: connect_or_create_def Let_def)
next
  case (Some t)
  then show ?thesis
    using find_None_tag [of n "db_tags (fst acc)"]
    by (simp add: connect_or_create_def Let_def)
qed

lemma coc_linked:
  "snd (connect_or_create rt acc n) = (if n \<in> set (snd acc) then snd acc else snd acc @ [n])"
  by (simp add: connect_or_create_def Let_def)

lemma fold_coc_linked:
  "distinct (snd acc) \<Longrightarrow>
   distinct (snd (foldl (connect_or_create rt) acc ns)) \<and>
   set (snd (foldl (connect_or_create rt) acc ns)) = set (snd acc) \<union> set ns"
proof (induction ns arbitrary: acc)
  case Nil
  then show ?case by simp
next
  case (Cons n ns)
  have d: "distinct (snd (connect_or_create rt acc n))"
    using Cons.prems by (simp add: coc_linked)
  have s: "set (snd (connect_or_create rt acc n)) = insert n (set (snd acc))"
    by (auto simp: coc_linked)
  show ?case using Cons.IH [OF d] s by auto
qed

lemma fold_coc_tags:
  "distinct (map tag_name (db_tags (fst acc))) \<Longrightarrow>
   \<exists>new. db_tags (fst (foldl (connect_or_create rt) acc ns)) = db_tags (fst acc) @ new \<and>
         distinct (map tag_name (db_tags (fst acc) @ new)) \<and>
         tag_name ` set new = set ns - tag_name ` set (db_tags (fst acc))"
proof (induction ns arbitrary: acc)
  case Nil
  then show ?case by simp
next
  case (Cons n ns)
  let ?a = "connect_or_create rt acc n"
  obtain new1 where n1: "db_tags (fst ?a) = db_tags (fst acc) @ new1"
    and m1: "map tag_name new1 = (if n \<in> tag_name ` set (db_tags (fst acc)) then [] else [n])"
    using coc_tags by blast
  have d1: "distinct (map tag_name (db_tags (fst ?a)))"
    using Cons.prems n1 m1 by (auto split: if_splits)
  obtain new2 where n2: "db_tags (fst (foldl (connect_or_create rt) ?a ns)) = db_tags (fst ?a) @ new2"
    and d2: "distinct (map tag_name (db_tags (fst ?a) @ new2))"
    and s2: "tag_name ` set new2 = set ns - tag_name ` set (db_tags (fst ?a))"
    using Cons.IH [OF d1] by blast
  have s1: "tag_name ` set new1 = (if n \<in> tag_name ` set (db_tags (fst acc)) then {} else {n})"
    using m1 by (metis (full_types) empty_set list.set_map list.simps(15))
  have "db_tags (fst (foldl (connect_or_create rt) acc (n # ns))) = db_tags (fst acc) @ (new1 @ new2)"
    using n1 n2 by simp
  moreover have "distinct (map tag_name (db_tags (fst acc) @ (new1 @ new2)))"
    using d2 n1 by simp
  moreover have "tag_name ` set (new1 @ new2) = set (n # ns) - tag_name ` set (db_tags (fst acc))"
    using s1 s2 n1 by (auto split: if_splits)
  ultimately show ?case by blast
qed

lemma as_strings_map: "as_strings vs = Inr ss \<Longrightarrow> vs = map JStr ss"
proof (induction vs arbitrary: ss)
  case Nil
  then show ?case by simp
next
  case (Cons v vs)
  then show ?case
    by (cases v) (auto split: sum.splits)
qed

lemma as_strings_JStr: "as_strings (map JStr ss) = Inr ss"
  by (induction ss) simp_all

lemma as_strings4:
  "as_strings [a, b, c, e] = Inr cols \<Longrightarrow>
   a = JStr (cols ! 0) \<and> b = JStr (cols ! 1) \<and> c = JStr (cols ! 2) \<and> e = JStr (cols ! 3)"
  by (drule as_strings_map) auto

text \<open>What a successful create did.\<close>

lemma post_create_Inr:
  assumes "post_create rt d title content category authorId names = Inr (p, d')"
  shows "\<exists>t c g a ns u.
           title = JStr t \<and> content = JStr c \<and> category = JStr g \<and> authorId = JStr a \<and>
           names = map JStr ns \<and> g \<in> set categories \<and>
           find (\<lambda>u. user_id u = a) (db_users d) = Some u \<and>
           p = \<lparr>post_id = new_id rt (db_next d), post_title = t, post_content = c,
                post_category = g, post_authorId = a,
                post_tags = snd (foldl (connect_or_create rt) (d\<lparr>db_next := Suc (db_next d)\<rparr>, []) ns)\<rparr> \<and>
           d' = (fst (foldl (connect_or_create rt) (d\<lparr>db_next := Suc (db_next d)\<rparr>, []) ns))
                  \<lparr>db_posts := db_posts d @ [p]\<rparr>"
proof -
  obtain cols where c: "as_strings [title, content, category, authorId] = Inr cols"
    using assms unfolding post_create_def by (cases "as_strings [title, content, category, authorId]") auto
  obtain ns where n: "as_strings names = Inr ns"
    using assms c unfolding post_create_def by (cases "as_strings names") auto
  have g: "cols ! 2 \<in> set categories"
    using assms c n unfolding post_create_def
    by (cases "cols ! 2 \<in> set categories") auto
  obtain u where u: "find (\<lambda>u. user_id u = cols ! 3) (db_users d) = Some u"
    using assms c n g unfolding post_create_def
    by (cases "find (\<lambda>u. user_id u = cols ! 3) (db_users d)") auto
  note a = as_strings4 [OF c]
  have "p = \<lparr>post_id = new_id rt (db_next d), post_title = cols ! 0, post_content = cols ! 1,
             post_category = cols ! 2, post_authorId = cols ! 3,
             post_tags = snd (foldl (connect_or_create rt) (d\<lparr>db_next := Suc (db_next d)\<rparr>, []) ns)\<rparr>"
    and "d' = (fst (foldl (connect_or_create rt) (d\<lparr>db_next := Suc (db_next d)\<rparr>, []) ns))
                \<lparr>db_posts := db_posts d @ [p]\<rparr>"
    using assms c n g u unfolding post_create_def
    by (auto simp: Let_def fold_coc_posts)
  then show ?thesis
    using a as_strings_map [OF n] u g by blast
qed

text \<open>A create with well-formed data succeeds.\<close>

lemma post_create_ok:
  assumes "g \<in> set categories" and "find (\<lambda>u. user_id u = a) (db_users d) = Some u"
  shows "post_create rt d (JStr t) (JStr c) (JStr g) (JStr a) (map JStr ns) =
     Inr (\<lparr>post_id = new_id rt (db_next d), post_title = t, post_content = c,
            post_category = g, post_authorId = a,
            post_tags = snd (foldl (connect_or_create rt) (d\<lparr>db_next := Suc (db_next d)\<rparr>, []) ns)\<rparr>,
          (fst (foldl (connect_or_create rt) (d\<lparr>db_next := Suc (db_next d)\<rparr>, []) ns))
            \<lparr>db_posts := db_posts d @
               [\<lparr>post_id = new_id rt (db_next d), post_title = t, post_content = c,
                  post_category = g, post_authorId = a,
                  post_tags = snd (foldl (connect_or_create rt)
                                     (d\<lparr>db_next := Suc (db_next d)\<rparr>, []) ns)\<rparr>]\<rparr>)"
  using assms
  by (simp add: post_create_def as_strings_JStr Let_def fold_coc_posts)

section \<open>Facts about the authorization gate\<close>

lemma split_space_no_space: "CHR '' '' \<notin> set t \<Longrightarrow> split_space t = [t]"
  by (induction t) auto

lemma split_space_prefix:
  "CHR '' '' \<notin> set w \<Longrightarrow> split_space (w @ CHR '' '' # t) = w # split_space t"
  by (induction w) auto

lemma bearer_token_Bearer:
  assumes "headers_authorization ev = Some (''Bearer '' @ t)" and "CHR '' '' \<notin> set t"
  shows "bearer_token ev = Some t"
proof -
  have "split_space (''Bearer'' @ CHR '' '' # t) = ''Bearer'' # split_space t"
    by (rule split_space_prefix) simp
  then show ?thesis
    using assms by (simp add: bearer_token_def split_space_no_space)
qed

lemma decoded_cases:
  "decoded rt ev = JNull \<or>
   (\<exists>t p. bearer_token ev = Some t \<and> t \<noteq> [] \<and>
          jwt_verify rt t (JWT_SECRET rt) = Inr p \<and> decoded rt ev = p)"
  by (auto simp: decoded_def verifyToken_def str_truthy_def split: option.splits sum.splits)

lemma decoded_unauthenticated:
  assumes "bearer_token ev = None \<or> bearer_token ev = Some [] \<or>
           (\<exists>t e. bearer_token ev = Some t \<and> jwt_verify rt t (JWT_SECRET rt) = Inl e)"
  shows "decoded rt ev = JNull"
  using assms
  by (auto simp: decoded_def verifyToken_def str_truthy_def split: option.splits sum.splits)

lemma posts_handler_201:
  assumes "posts_handler rt d ev = (r, d')" and "statusCode r = 201"
  shows "httpMethod ev = ''POST'' \<and> truthy (decoded rt ev) \<and>
         (\<exists>p. create_post rt d (decoded rt ev) ev = Inr (p, d') \<and>
              r = \<lparr>statusCode = 201, resp_body = JSON_stringify (post_json d' p)\<rparr>)"
  using assms
  by (auto simp: posts_handler_def Let_def split: if_splits sum.splits prod.splits)

lemma create_post_Inr:
  assumes "create_post rt d dec ev = Inr (p, d')"
  shows "\<exists>b names. parse_object (body_or_empty ev) = Inr b \<and>
           tags_map (get_prop b ''tags'') = Inr names \<and>
           post_create rt d (get_prop b ''title'') (get_prop b ''content'')
             (get_prop b ''category'') (get_prop dec ''userId'') names = Inr (p, d')"
  using assms
  by (auto simp: create_post_def Let_def split: sum.splits)

lemma decoded_from_header:
  assumes "headers_authorization ev = Some h" and "split_space h = w # t # rest" and "t \<noteq> []"
    and "jwt_verify rt t (JWT_SECRET rt) = Inr p"
  shows "decoded rt ev = p"
  using assms by (simp add: decoded_def bearer_token_def verifyToken_def str_truthy_def)

lemma decoded_truthyD:
  assumes "truthy (decoded rt ev)"
  shows "\<exists>h w t rest p. headers_authorization ev = Some h \<and> split_space h = w # t # rest \<and>
           t \<noteq> [] \<and> jwt_verify rt t (JWT_SECRET rt) = Inr p \<and> decoded rt ev = p"
proof -
  obtain h where h: "headers_authorization ev = Some h"
    using assms by (cases "headers_authorization ev") (auto simp: decoded_def bearer_token_def)
  obtain t where t: "bearer_token ev = Some t"
    using assms by (cases "bearer_token ev") (auto simp: decoded_def)
  obtain w rest where s: "split_space h = w # t # rest"
    using t h by (auto simp: bearer_token_def split: list.splits)
  have ne: "t \<noteq> []"
    using assms t by (auto simp: decoded_def str_truthy_def split: if_splits)
  obtain p where p: "jwt_verify rt t (JWT_SECRET rt) = Inr p"
    using assms t ne
    by (cases "jwt_verify rt t (JWT_SECRET rt)") (auto simp: decoded_def verifyToken_def str_truthy_def)
  have "decoded rt ev = p"
    by (rule decoded_from_header [OF h s ne p])
  then show ?thesis
    using h s ne p by blast
qed

lemma decoded_same_header:
  "headers_authorization ev2 = headers_authorization ev \<Longrightarrow> decoded rt ev2 = decoded rt ev"
  by (simp add: decoded_def bearer_token_def)

lemma split_space_Bearer:
  "CHR '' '' \<notin> set t \<Longrightarrow> split_space (''Bearer '' @ t) = [''Bearer'', t]"
proof -
  assume a: "CHR '' '' \<notin> set t"
  have "split_space (''Bearer'' @ CHR '' '' # t) = ''Bearer'' # split_space t"
    by (rule split_space_prefix) simp
  then show ?thesis
    using a by (simp add: split_space_no_space)
qed

lemma created_article:
  assumes "posts_handler rt d ev = (r, d')" and "statusCode r = 201"
  shows "\<exists>A u p. truthy (decoded rt ev) \<and> get_prop (decoded rt ev) ''userId'' = JStr A \<and>
           find (\<lambda>u. user_id u = A) (db_users d') = Some u \<and>
           db_users d' = db_users d \<and>
           db_posts d' = db_posts d @ [p] \<and> post_authorId p = A \<and>
           post_author d' p = author_select u \<and>
           resp_body r = JSON_stringify (post_json d' p)"
proof -
  from posts_handler_201 [OF assms] obtain p where
    tr: "truthy (decoded rt ev)" and
    c: "create_post rt d (decoded rt ev) ev = Inr (p, d')" and
    r: "r = \<lparr>statusCode = 201, resp_body = JSON_stringify (post_json d' p)\<rparr>"
    by blast
  from create_post_Inr [OF c] obtain b names where
    pc: "post_create rt d (get_prop b ''title'') (get_prop b ''content'')
           (get_prop b ''category'') (get_prop (decoded rt ev) ''userId'') names = Inr (p, d')"
    by blast
  from post_create_Inr [OF pc] obtain a ns u where
    a: "get_prop (decoded rt ev) ''userId'' = JStr a" and
    u: "find (\<lambda>u. user_id u = a) (db_users d) = Some u" and
    pa: "post_authorId p = a" and
    d': "d' = (fst (foldl (connect_or_create rt) (d\<lparr>db_next := Suc (db_next d)\<rparr>, []) ns))
                \<lparr>db_posts := db_posts d @ [p]\<rparr>"
    by auto
  have us: "db_users d' = db_users d"
    by (simp add: d' fold_coc_users)
  have ps: "db_posts d' = db_posts d @ [p]"
    by (simp add: d')
  have "post_author d' p = author_select u"
    by (simp add: post_author_def us pa u)
  then show ?thesis
    using tr a u pa us ps r by auto
qed

section \<open>The author of a created article\<close>

text \<open>
  Claim C1: for every create request that the Resource Handler accepts (answers 201),
  the request has an authorization header; its second space-separated field, which for
  a header \<open>Bearer t\<close> is t, is a token that \<open>jwt.verify\<close> accepts under
  JWT_SECRET; the \<open>userId\<close> of the verified payload is a string A; A is a stored
  identity; and the one article added to the storage has author A, whose projection the
  response shows. Every other request with the same header that is accepted stores its
  article for A as well, whatever its body: an \<open>author\<close> or \<open>authorId\<close> member of
  the body has no influence.
\<close>

theorem create_author_is_token_user:
  assumes "posts_handler rt d ev = (r, d')" and "statusCode r = 201"
  shows "\<exists>h w t rest payload A u p.
           headers_authorization ev = Some h \<and> split_space h = w # t # rest \<and> t \<noteq> [] \<and>
           (\<forall>t0. h = ''Bearer '' @ t0 \<and> CHR '' '' \<notin> set t0 \<longrightarrow> t = t0) \<and>
           jwt_verify rt t (JWT_SECRET rt) = Inr payload \<and>
           get_prop payload ''userId'' = JStr A \<and>
           find (\<lambda>u. user_id u = A) (db_users d') = Some u \<and>
           db_users d' = db_users d \<and>
           db_posts d' = db_posts d @ [p] \<and> post_authorId p = A \<and>
           post_author d' p = author_select u \<and>
           resp_body r = JSON_stringify (post_json d' p) \<and>
           (\<forall>ev2 r2 d2.
              headers_authorization ev2 = Some h \<and> posts_handler rt d ev2 = (r2, d2) \<and>
              statusCode r2 = 201 \<longrightarrow>
                (\<exists>p2. db_posts d2 = db_posts d @ [p2] \<and> post_authorId p2 = A))"
proof -
  from created_article [OF assms] obtain A u p where
    tr: "truthy (decoded rt ev)" and
    a: "get_prop (decoded rt ev) ''userId'' = JStr A" and
    rest: "find (\<lambda>u. user_id u = A) (db_users d') = Some u" "db_users d' = db_users d"
      "db_posts d' = db_posts d @ [p]" "post_authorId p = A"
      "post_author d' p = author_select u" "resp_body r = JSON_stringify (post_json d' p)"
    by blast
  from decoded_truthyD [OF tr] obtain h w t rs payload where
    h: "headers_authorization ev = Some h" and s: "split_space h = w # t # rs" and
    ne: "t \<noteq> []" and v: "jwt_verify rt t (JWT_SECRET rt) = Inr payload" and
    dp: "decoded rt ev = payload"
    by blast
  have b: "\<forall>t0. h = ''Bearer '' @ t0 \<and> CHR '' '' \<notin> set t0 \<longrightarrow> t = t0"
    using s split_space_Bearer by auto
  have other: "\<forall>ev2 r2 d2.
      headers_authorization ev2 = Some h \<and> posts_handler rt d ev2 = (r2, d2) \<and>
      statusCode r2 = 201 \<longrightarrow>
        (\<exists>p2. db_posts d2 = db_posts d @ [p2] \<and> post_authorId p2 = A)"
  proof (intro allI impI)
    fix ev2 r2 d2
    assume x: "headers_authorization ev2 = Some h \<and> posts_handler rt d ev2 = (r2, d2) \<and>
      statusCode r2 = 201"
    then have "decoded rt ev2 = decoded rt ev"
      using h decoded_same_header [of ev2 ev rt] by simp
    moreover from x created_article [of rt d ev2 r2 d2] obtain A2 p2 where
      "get_prop (decoded rt ev2) ''userId'' = JStr A2" "db_posts d2 = db_posts d @ [p2]"
      "post_authorId p2 = A2"
      by blast
    ultimately show "\<exists>p2. db_posts d2 = db_posts d @ [p2] \<and> post_authorId p2 = A"
      using a by auto
  qed
  have ap: "get_prop payload ''userId'' = JStr A"
    using a dp by simp
  show ?thesis
    using h s ne b v ap rest other by blast
qed

text \<open>
  The sample request carries a token for u1 and a body that names u2 as author and
  authorId; the article is stored for u1.
\<close>

theorem create_author_is_token_user_witness:
  \<open>statusCode (fst (posts_handler sample_rt sample_db
      \<lparr>httpMethod = ''POST'', headers_authorization = Some ''Bearer your-secret-key.u1'',
       body = Some ''{"title":"T","content":"C","category":"tech","tags":["a"],"author":{"id":"u2"},"authorId":"u2"}''\<rparr>)) = 201 \<and>
   (\<exists>p. db_posts (snd (posts_handler sample_rt sample_db
      \<lparr>httpMethod = ''POST'', headers_authorization = Some ''Bearer your-secret-key.u1'',
       body = Some ''{"title":"T","content":"C","category":"tech","tags":["a"],"author":{"id":"u2"},"authorId":"u2"}''\<rparr>)) =
        db_posts sample_db @ [p] \<and>
      post_authorId p = ''u1'')\<close>
proof -
  define ev where \<open>ev = \<lparr>httpMethod = ''POST'',
       headers_authorization = Some ''Bearer your-secret-key.u1'',
       body = Some ''{"title":"T","content":"C","category":"tech","tags":["a"],"author":{"id":"u2"},"authorId":"u2"}''\<rparr>\<close>
  define r where "r = fst (posts_handler sample_rt sample_db ev)"
  define d1 where "d1 = snd (posts_handler sample_rt sample_db ev)"
  have e: "posts_handler sample_rt sample_db ev = (r, d1)"
    by (simp add: r_def d1_def)
  have s: "statusCode r = 201"
    unfolding r_def ev_def by code_simp
  have hd: "headers_authorization ev = Some (''Bearer '' @ ''your-secret-key.u1'')"
    by (simp add: ev_def)
  have ns: "CHR '' '' \<notin> set ''your-secret-key.u1''"
    by simp
  have jv: "jwt_verify sample_rt ''your-secret-key.u1'' (JWT_SECRET sample_rt) =
      Inr (JObj [(''userId'', JStr ''u1'')])"
    by code_simp
  let ?P = "\<lambda>h w t rest payload A u p.
           headers_authorization ev = Some h \<and> split_space h = w # t # rest \<and> t \<noteq> [] \<and>
           (\<forall>t0. h = ''Bearer '' @ t0 \<and> CHR '' '' \<notin> set t0 \<longrightarrow> t = t0) \<and>
           jwt_verify sample_rt t (JWT_SECRET sample_rt) = Inr payload \<and>
           get_prop payload ''userId'' = JStr A \<and>
           find (\<lambda>u. user_id u = A) (db_users d1) = Some u \<and>
           db_users d1 = db_users sample_db \<and>
           db_posts d1 = db_posts sample_db @ [p] \<and> post_authorId p = A \<and>
           post_author d1 p = author_select u \<and>
           resp_body r = JSON_stringify (post_json d1 p) \<and>
           (\<forall>ev2 r2 d2.
              headers_authorization ev2 = Some h \<and> posts_handler sample_rt sample_db ev2 = (r2, d2) \<and>
              statusCode r2 = 201 \<longrightarrow>
                (\<exists>p2. db_posts d2 = db_posts sample_db @ [p2] \<and> post_authorId p2 = A))"
  have "\<exists>h w t rest payload A u p. ?P h w t rest payload A u p"
    by (rule create_author_is_token_user [OF e s])
  then obtain h where "\<exists>w t rest payload A u p. ?P h w t rest payload A u p" ..
  then obtain w where "\<exists>t rest payload A u p. ?P h w t rest payload A u p" ..
  then obtain t where "\<exists>rest payload A u p. ?P h w t rest payload A u p" ..
  then obtain rest where "\<exists>payload A u p. ?P h w t rest payload A u p" ..
  then obtain payload where "\<exists>A u p. ?P h w t rest payload A u p" ..
  then obtain A where "\<exists>u p. ?P h w t rest payload A u p" ..
  then obtain u where "\<exists>p. ?P h w t rest payload A u p" ..
  then obtain p where H: "?P h w t rest payload A u p" ..
  have 1: "headers_authorization ev = Some h"
    using H by (rule conjunct1)
  have 2: "\<forall>t0. h = ''Bearer '' @ t0 \<and> CHR '' '' \<notin> set t0 \<longrightarrow> t = t0"
    using H by (elim conjE)
  have 3: "jwt_verify sample_rt t (JWT_SECRET sample_rt) = Inr payload"
    using H by (elim conjE)
  have 4: "get_prop payload ''userId'' = JStr A"
    using H by (elim conjE)
  have 5: "db_posts d1 = db_posts sample_db @ [p]"
    using H by (elim conjE)
  have 6: "post_authorId p = A"
    using H by (elim conjE)
  have h: "h = ''Bearer '' @ ''your-secret-key.u1''"
    using 1 hd by simp
  have t: "t = ''your-secret-key.u1''"
    using 2 h ns by blast
  have "payload = JObj [(''userId'', JStr ''u1'')]"
    using 3 jv t by simp
  then have "A = ''u1''"
    using 4 by simp
  then have "\<exists>p. db_posts d1 = db_posts sample_db @ [p] \<and> post_authorId p = ''u1''"
    using 5 6 by blast
  with s show ?thesis
    unfolding r_def d1_def ev_def by (intro conjI) assumption+
qed

section \<open>Bearer-token processing\<close>

text \<open>
  Claim C4: bearer-token processing is total and never throws. \<open>decoded\<close> is a value
  for every request and runtime: the token of a header \<open>Bearer t\<close> (t without a space)
  is t; an absent header gives null; a token that \<open>jwt.verify\<close> rejects by throwing
  gives null as well; and whatever the request, the result is null or the payload of a
  token that verification accepted.
\<close>

theorem bearer_token_processing_total:
  "(\<forall>t. headers_authorization ev = Some (''Bearer '' @ t) \<and> CHR '' '' \<notin> set t \<longrightarrow>
        bearer_token ev = Some t) \<and>
   (headers_authorization ev = None \<longrightarrow> decoded rt ev = JNull) \<and>
   (\<forall>t e. bearer_token ev = Some t \<and> jwt_verify rt t (JWT_SECRET rt) = Inl e \<longrightarrow>
        decoded rt ev = JNull) \<and>
   (decoded rt ev = JNull \<or>
    (\<exists>t p. bearer_token ev = Some t \<and> jwt_verify rt t (JWT_SECRET rt) = Inr p \<and>
           decoded rt ev = p))"
proof -
  have 1: "\<forall>t. headers_authorization ev = Some (''Bearer '' @ t) \<and> CHR '' '' \<notin> set t \<longrightarrow>
        bearer_token ev = Some t"
    using bearer_token_Bearer by blast
  have 2: "headers_authorization ev = None \<longrightarrow> decoded rt ev = JNull"
    by (simp add: decoded_def bearer_token_def)
  have 3: "\<forall>t e. bearer_token ev = Some t \<and> jwt_verify rt t (JWT_SECRET rt) = Inl e \<longrightarrow>
        decoded rt ev = JNull"
    using decoded_unauthenticated by blast
  have 4: "decoded rt ev = JNull \<or>
    (\<exists>t p. bearer_token ev = Some t \<and> jwt_verify rt t (JWT_SECRET rt) = Inr p \<and>
           decoded rt ev = p)"
    using decoded_cases [of rt ev] by blast
  from 1 2 3 4 show ?thesis by blast
qed

theorem bearer_token_processing_total_witness:
  "bearer_token \<lparr>httpMethod = ''POST'', headers_authorization = Some ''Bearer your-secret-key.u1'',
                 body = None\<rparr> = Some ''your-secret-key.u1'' \<and>
   decoded sample_rt \<lparr>httpMethod = ''POST'', headers_authorization = None, body = None\<rparr> = JNull \<and>
   bearer_token \<lparr>httpMethod = ''POST'', headers_authorization = Some ''Bearer garbage'',
                 body = None\<rparr> = Some ''garbage'' \<and>
   jwt_verify sample_rt ''garbage'' (JWT_SECRET sample_rt) = Inl (Error ''invalid signature'') \<and>
   decoded sample_rt \<lparr>httpMethod = ''POST'', headers_authorization = Some ''Bearer garbage'',
                      body = None\<rparr> = JNull"
proof -
  let ?e1 = "\<lparr>httpMethod = ''POST'', headers_authorization = Some ''Bearer your-secret-key.u1'',
               body = None\<rparr>"
  let ?e2 = "\<lparr>httpMethod = ''POST'', headers_authorization = None, body = None :: string option\<rparr>"
  let ?e3 = "\<lparr>httpMethod = ''POST'', headers_authorization = Some ''Bearer garbage'', body = None\<rparr>"
  have a: "headers_authorization ?e1 = Some (''Bearer '' @ ''your-secret-key.u1'') \<and>
           CHR '' '' \<notin> set ''your-secret-key.u1''"
    by simp
  have b: "headers_authorization ?e3 = Some (''Bearer '' @ ''garbage'') \<and>
           CHR '' '' \<notin> set ''garbage''"
    by simp
  have v: "jwt_verify sample_rt ''garbage'' (JWT_SECRET sample_rt) = Inl (Error ''invalid signature'')"
    by code_simp
  have t3: "bearer_token ?e3 = Some ''garbage''"
    using bearer_token_processing_total [of ?e3 sample_rt] b by blast
  show ?thesis
    using bearer_token_processing_total [of ?e1 sample_rt] a
      bearer_token_processing_total [of ?e2 sample_rt]
      bearer_token_processing_total [of ?e3 sample_rt] t3 v
    by simp
qed

section \<open>The gate on write operations\<close>

lemma posts_handler_POST:
  assumes "httpMethod ev = ''POST''"
  shows "posts_handler rt d ev =
     (if \<not> truthy (decoded rt ev)
      then (\<lparr>statusCode = 401, resp_body = message ''Unauthorized''\<rparr>, d)
      else case create_post rt d (decoded rt ev) ev of
             Inr (p, d') \<Rightarrow>
               (\<lparr>statusCode = 201, resp_body = JSON_stringify (post_json d' p)\<rparr>, d')
           | Inl e \<Rightarrow>
               (\<lparr>statusCode = 500, resp_body = message ''Internal server error''\<rparr>, d))"
  using assms by (simp add: posts_handler_def Let_def)

lemma posts_handler_POST_status:
  assumes "httpMethod ev = ''POST''" and "truthy (decoded rt ev)"
  shows "statusCode (fst (posts_handler rt d ev)) \<noteq> 401"
  using assms by (simp add: posts_handler_POST split: sum.splits prod.splits)

text \<open>
  Claim C3, as amended. The token of a request is the second space-separated field of
  its authorization header, whatever the first field: the scheme word is not checked. A
  POST is answered 401 Unauthorized, the storage untouched, exactly when it has no such
  token: the header is absent or has no second field, the field is empty,
  \<open>jwt.verify\<close> rejects it, or the verified payload is empty. A request with a method
  other than GET and POST (the client's update and delete) is answered 405 Method not
  allowed whatever its token, the storage untouched. A POST whose token verifies to a
  payload whose \<open>userId\<close> is a stored identity, and whose body is a JSON object with
  string title and content, a category among tutorial, tech, dataset and code, and an
  array of strings as tags, is answered 201 with the created article: the storage gains
  exactly that article, with the title, content and category of the body, the token's
  user as author and the named tags, and the identities are as before.
\<close>

theorem write_gate:
  "(httpMethod ev = ''POST'' \<longrightarrow>
      (posts_handler rt d ev = (\<lparr>statusCode = 401, resp_body = message ''Unauthorized''\<rparr>, d)) =
      (\<not> (\<exists>h w t rest p.
             headers_authorization ev = Some h \<and> split_space h = w # t # rest \<and> t \<noteq> [] \<and>
             jwt_verify rt t (JWT_SECRET rt) = Inr p \<and> truthy p))) \<and>
   (httpMethod ev \<noteq> ''GET'' \<and> httpMethod ev \<noteq> ''POST'' \<longrightarrow>
      posts_handler rt d ev =
        (\<lparr>statusCode = 405, resp_body = message ''Method not allowed''\<rparr>, d)) \<and>
   (\<forall>h w t rest payload A u b tl c g ns.
      httpMethod ev = ''POST'' \<and>
      headers_authorization ev = Some h \<and> split_space h = w # t # rest \<and> t \<noteq> [] \<and>
      jwt_verify rt t (JWT_SECRET rt) = Inr payload \<and>
      get_prop payload ''userId'' = JStr A \<and>
      find (\<lambda>u. user_id u = A) (db_users d) = Some u \<and>
      JSON_parse (body_or_empty ev) = Inr b \<and>
      get_prop b ''title'' = JStr tl \<and> get_prop b ''content'' = JStr c \<and>
      get_prop b ''category'' = JStr g \<and> g \<in> set categories \<and>
      get_prop b ''tags'' = JArr (map JStr ns) \<longrightarrow>
        (\<exists>p d'. posts_handler rt d ev =
                  (\<lparr>statusCode = 201, resp_body = JSON_stringify (post_json d' p)\<rparr>, d') \<and>
                db_users d' = db_users d \<and> db_posts d' = db_posts d @ [p] \<and>
                post_title p = tl \<and> post_content p = c \<and> post_category p = g \<and>
                post_authorId p = A \<and> set (post_tags p) = set ns \<and>
                post_author d' p = author_select u))"
proof -
  let ?auth = "\<exists>h w t rest p.
             headers_authorization ev = Some h \<and> split_space h = w # t # rest \<and> t \<noteq> [] \<and>
             jwt_verify rt t (JWT_SECRET rt) = Inr p \<and> truthy p"
  have tr: "truthy (decoded rt ev) = ?auth"
  proof
    assume a: "truthy (decoded rt ev)"
    from decoded_truthyD [OF a] a show ?auth
      by metis
  next
    assume ?auth
    then obtain h w t rest p where
      "headers_authorization ev = Some h" "split_space h = w # t # rest" "t \<noteq> []"
      "jwt_verify rt t (JWT_SECRET rt) = Inr p" "truthy p"
      by blast
    then show "truthy (decoded rt ev)"
      using decoded_from_header [of ev h w t rest rt p] by simp
  qed
  have 1: "httpMethod ev = ''POST'' \<longrightarrow>
      (posts_handler rt d ev = (\<lparr>statusCode = 401, resp_body = message ''Unauthorized''\<rparr>, d)) =
      (\<not> ?auth)"
  proof
    assume m: "httpMethod ev = ''POST''"
    show "(posts_handler rt d ev =
        (\<lparr>statusCode = 401, resp_body = message ''Unauthorized''\<rparr>, d)) = (\<not> ?auth)"
    proof (cases "truthy (decoded rt ev)")
      case True
      then have "statusCode (fst (posts_handler rt d ev)) \<noteq> 401"
        by (rule posts_handler_POST_status [OF m])
      then have "posts_handler rt d ev \<noteq>
          (\<lparr>statusCode = 401, resp_body = message ''Unauthorized''\<rparr>, d)"
        by auto
      then show ?thesis
        using True tr by simp
    next
      case False
      then have "posts_handler rt d ev =
          (\<lparr>statusCode = 401, resp_body = message ''Unauthorized''\<rparr>, d)"
        by (simp add: posts_handler_POST [OF m])
      then show ?thesis
        using False tr by simp
    qed
  qed
  have 2: "httpMethod ev \<noteq> ''GET'' \<and> httpMethod ev \<noteq> ''POST'' \<longrightarrow>
      posts_handler rt d ev =
        (\<lparr>statusCode = 405, resp_body = message ''Method not allowed''\<rparr>, d)"
    by (simp add: posts_handler_def Let_def)
  have 3: "\<forall>h w t rest payload A u b tl c g ns.
      httpMethod ev = ''POST'' \<and>
      headers_authorization ev = Some h \<and> split_space h = w # t # rest \<and> t \<noteq> [] \<and>
      jwt_verify rt t (JWT_SECRET rt) = Inr payload \<and>
      get_prop payload ''userId'' = JStr A \<and>
      find (\<lambda>u. user_id u = A) (db_users d) = Some u \<and>
      JSON_parse (body_or_empty ev) = Inr b \<and>
      get_prop b ''title'' = JStr tl \<and> get_prop b ''content'' = JStr c \<and>
      get_prop b ''category'' = JStr g \<and> g \<in> set categories \<and>
      get_prop b ''tags'' = JArr (map JStr ns) \<longrightarrow>
        (\<exists>p d'. posts_handler rt d ev =
                  (\<lparr>statusCode = 201, resp_body = JSON_stringify (post_json d' p)\<rparr>, d') \<and>
                db_users d' = db_users d \<and> db_posts d' = db_posts d @ [p] \<and>
                post_title p = tl \<and> post_content p = c \<and> post_category p = g \<and>
                post_authorId p = A \<and> set (post_tags p) = set ns \<and>
                post_author d' p = author_select u)"
  proof (intro allI impI)
    fix h w t rest payload A u b tl c g ns
    assume a: "httpMethod ev = ''POST'' \<and>
      headers_authorization ev = Some h \<and> split_space h = w # t # rest \<and> t \<noteq> [] \<and>
      jwt_verify rt t (JWT_SECRET rt) = Inr payload \<and>
      get_prop payload ''userId'' = JStr A \<and>
      find (\<lambda>u. user_id u = A) (db_users d) = Some u \<and>
      JSON_parse (body_or_empty ev) = Inr b \<and>
      get_prop b ''title'' = JStr tl \<and> get_prop b ''content'' = JStr c \<and>
      get_prop b ''category'' = JStr g \<and> g \<in> set categories \<and>
      get_prop b ''tags'' = JArr (map JStr ns)"
    have m: "httpMethod ev = ''POST''"
      using a by simp
    have dp: "decoded rt ev = payload"
      using a decoded_from_header [of ev h w t rest rt payload] by simp
    have tp: "truthy payload"
      using a by (cases payload) auto
    have nn: "b \<noteq> JNull"
      using a by auto
    have po: "parse_object (body_or_empty ev) = Inr b"
      using a nn by (simp add: parse_object_def)
    let ?r = "foldl (connect_or_create rt) (d\<lparr>db_next := Suc (db_next d)\<rparr>, []) ns"
    let ?p = "\<lparr>post_id = new_id rt (db_next d), post_title = tl, post_content = c,
               post_category = g, post_authorId = A, post_tags = snd ?r\<rparr>"
    let ?d' = "(fst ?r)\<lparr>db_posts := db_posts d @ [?p]\<rparr>"
    have g: "g \<in> set categories" and u: "find (\<lambda>u. user_id u = A) (db_users d) = Some u"
      using a by simp_all
    have cp: "create_post rt d payload ev = Inr (?p, ?d')"
      using a po post_create_ok [OF g u, of rt tl c ns]
      by (simp add: create_post_def tags_map_def)
    have res: "posts_handler rt d ev =
        (\<lparr>statusCode = 201, resp_body = JSON_stringify (post_json ?d' ?p)\<rparr>, ?d')"
      using cp tp dp by (simp add: posts_handler_POST [OF m])
    have us: "db_users ?d' = db_users d"
      by (simp add: fold_coc_users)
    have ps: "db_posts ?d' = db_posts d @ [?p]"
      by simp
    have "distinct (snd (d\<lparr>db_next := Suc (db_next d)\<rparr>, [] :: string list))"
      by simp
    from fold_coc_linked [OF this, of rt ns]
    have tg: "set (post_tags ?p) = set ns"
      by simp
    have pa: "post_author ?d' ?p = author_select u"
      using u by (simp add: post_author_def fold_coc_users)
    have f: "post_title ?p = tl" "post_content ?p = c" "post_category ?p = g"
      "post_authorId ?p = A"
      by simp_all
    show "\<exists>p d'. posts_handler rt d ev =
                  (\<lparr>statusCode = 201, resp_body = JSON_stringify (post_json d' p)\<rparr>, d') \<and>
                db_users d' = db_users d \<and> db_posts d' = db_posts d @ [p] \<and>
                post_title p = tl \<and> post_content p = c \<and> post_category p = g \<and>
                post_authorId p = A \<and> set (post_tags p) = set ns \<and>
                post_author d' p = author_select u"
      using res us ps f tg pa by (intro exI [of _ ?p] exI [of _ ?d'] conjI)
  qed
  from 1 2 3 show ?thesis by blast
qed

theorem write_gate_witness:
  \<open>posts_handler sample_rt sample_db
      \<lparr>httpMethod = ''POST'', headers_authorization = Some ''Bearer garbage'',
       body = Some ''{"title":"T","content":"C","category":"tech","tags":["a","b"]}''\<rparr> =
      (\<lparr>statusCode = 401, resp_body = message ''Unauthorized''\<rparr>, sample_db) \<and>
   posts_handler sample_rt sample_db
      \<lparr>httpMethod = ''PUT'', headers_authorization = Some ''Bearer your-secret-key.u1'',
       body = Some ''{"title":"T","content":"C","category":"tech","tags":["a","b"]}''\<rparr> =
      (\<lparr>statusCode = 405, resp_body = message ''Method not allowed''\<rparr>, sample_db) \<and>
   (\<exists>p d'. posts_handler sample_rt sample_db
      \<lparr>httpMethod = ''POST'', headers_authorization = Some ''Bearer your-secret-key.u1'',
       body = Some ''{"title":"T","content":"C","category":"tech","tags":["a","b"]}''\<rparr> =
        (\<lparr>statusCode = 201, resp_body = JSON_stringify (post_json d' p)\<rparr>, d') \<and>
      db_users d' = db_users sample_db \<and> db_posts d' = db_posts sample_db @ [p] \<and>
      post_title p = ''T'' \<and> post_content p = ''C'' \<and> post_category p = ''tech'' \<and>
      post_authorId p = ''u1'' \<and> set (post_tags p) = set [''a'', ''b''] \<and>
      post_author d' p = author_select ann)\<close>
proof -
  define bd where \<open>bd = Some ''{"title":"T","content":"C","category":"tech","tags":["a","b"]}''\<close>
  define e1 where "e1 = \<lparr>httpMethod = ''POST'', headers_authorization = Some ''Bearer garbage'',
      body = bd\<rparr>"
  define e2 where "e2 = \<lparr>httpMethod = ''PUT'',
      headers_authorization = Some ''Bearer your-secret-key.u1'', body = bd\<rparr>"
  define e3 where "e3 = \<lparr>httpMethod = ''POST'',
      headers_authorization = Some ''Bearer your-secret-key.u1'', body = bd\<rparr>"
  define b where "b = JObj [(''title'', JStr ''T''), (''content'', JStr ''C''),
      (''category'', JStr ''tech''), (''tags'', JArr (map JStr [''a'', ''b'']))]"
  have sp1: "split_space ''Bearer garbage'' = [''Bearer'', ''garbage'']"
    by code_simp
  have jv1: "jwt_verify sample_rt ''garbage'' (JWT_SECRET sample_rt) =
      Inl (Error ''invalid signature'')"
    by code_simp
  have na: "\<not> (\<exists>h w t rest p.
      headers_authorization e1 = Some h \<and> split_space h = w # t # rest \<and> t \<noteq> [] \<and>
      jwt_verify sample_rt t (JWT_SECRET sample_rt) = Inr p \<and> truthy p)"
    using sp1 jv1 by (auto simp: e1_def)
  have m1: "httpMethod e1 = ''POST''"
    by (simp add: e1_def)
  have c1: "posts_handler sample_rt sample_db e1 =
      (\<lparr>statusCode = 401, resp_body = message ''Unauthorized''\<rparr>, sample_db)"
    using write_gate [of e1 sample_rt sample_db] m1 na by blast
  have m2: "httpMethod e2 \<noteq> ''GET'' \<and> httpMethod e2 \<noteq> ''POST''"
    by (simp add: e2_def)
  have c2: "posts_handler sample_rt sample_db e2 =
      (\<lparr>statusCode = 405, resp_body = message ''Method not allowed''\<rparr>, sample_db)"
    using write_gate [of e2 sample_rt sample_db] m2 by blast
  have sp3: "split_space ''Bearer your-secret-key.u1'' = ''Bearer'' # ''your-secret-key.u1'' # []"
    by code_simp
  have jv3: "jwt_verify sample_rt ''your-secret-key.u1'' (JWT_SECRET sample_rt) =
      Inr (JObj [(''userId'', JStr ''u1'')])"
    by code_simp
  have pb: "JSON_parse (body_or_empty e3) = Inr b"
    unfolding e3_def bd_def b_def by code_simp
  have fu: "find (\<lambda>u. user_id u = ''u1'') (db_users sample_db) = Some ann"
    by (simp add: sample_db_def ann_def)
  have h3: "httpMethod e3 = ''POST'' \<and>
      headers_authorization e3 = Some ''Bearer your-secret-key.u1'' \<and>
      split_space ''Bearer your-secret-key.u1'' = ''Bearer'' # ''your-secret-key.u1'' # [] \<and>
      ''your-secret-key.u1'' \<noteq> [] \<and>
      jwt_verify sample_rt ''your-secret-key.u1'' (JWT_SECRET sample_rt) =
        Inr (JObj [(''userId'', JStr ''u1'')]) \<and>
      get_prop (JObj [(''userId'', JStr ''u1'')]) ''userId'' = JStr ''u1'' \<and>
      find (\<lambda>u. user_id u = ''u1'') (db_users sample_db) = Some ann \<and>
      JSON_parse (body_or_empty e3) = Inr b \<and>
      get_prop b ''title'' = JStr ''T'' \<and> get_prop b ''content'' = JStr ''C'' \<and>
      get_prop b ''category'' = JStr ''tech'' \<and> ''tech'' \<in> set categories \<and>
      get_prop b ''tags'' = JArr (map JStr [''a'', ''b''])"
    using sp3 jv3 pb fu by (simp add: e3_def b_def categories_def)
  note part3 = write_gate [of e3 sample_rt sample_db, THEN conjunct2, THEN conjunct2, rule_format]
  have c3: "\<exists>p d'. posts_handler sample_rt sample_db e3 =
        (\<lparr>statusCode = 201, resp_body = JSON_stringify (post_json d' p)\<rparr>, d') \<and>
      db_users d' = db_users sample_db \<and> db_posts d' = db_posts sample_db @ [p] \<and>
      post_title p = ''T'' \<and> post_content p = ''C'' \<and> post_category p = ''tech'' \<and>
      post_authorId p = ''u1'' \<and> set (post_tags p) = set [''a'', ''b''] \<and>
      post_author d' p = author_select ann"
    by (rule part3 [OF h3])
  from c1 c2 c3 show ?thesis
    unfolding e1_def e2_def e3_def bd_def by (intro conjI) assumption+
qed

text \<open>
  The claim as stated fails: without a token PUT is answered 405, not 401; with a
  rejected token DELETE is answered 405; a POST whose header is \<open>Basic\<close> followed by a
  valid token carries no bearer token and is answered 201; and a POST with a valid token
  for a stored identity, whose body has no tags, is answered 500.
\<close>

theorem write_gate_counterexample:
  \<open>statusCode (fst (posts_handler sample_rt sample_db
      \<lparr>httpMethod = ''PUT'', headers_authorization = None,
       body = Some ''{"title":"T"}''\<rparr>)) = 405 \<and>
    statusCode (fst (posts_handler sample_rt sample_db
      \<lparr>httpMethod = ''DELETE'', headers_authorization = Some ''Bearer garbage'',
       body = None\<rparr>)) = 405 \<and>
    statusCode (fst (posts_handler sample_rt sample_db
      \<lparr>httpMethod = ''POST'', headers_authorization = Some ''Basic your-secret-key.u1'',
       body = Some ''{"title":"T","content":"C","category":"tech","tags":[]}''\<rparr>)) = 201 \<and>
    get_prop (decoded sample_rt
      \<lparr>httpMethod = ''POST'', headers_authorization = Some ''Bearer your-secret-key.u1'',
       body = Some ''{"title":"T"}''\<rparr>) ''userId'' = JStr ''u1'' \<and>
    statusCode (fst (posts_handler sample_rt sample_db
      \<lparr>httpMethod = ''POST'', headers_authorization = Some ''Bearer your-secret-key.u1'',
       body = Some ''{"title":"T"}''\<rparr>)) = 500\<close>
  by code_simp

section \<open>The cached user\<close>

text \<open>
  Claim C5, as amended: \<open>getCurrentUser\<close> returns null when the \<open>user\<close> entry is
  absent or empty and the parsed value when the entry is a JSON text; when the entry is
  not a JSON text, the SyntaxError of \<open>JSON.parse\<close> reaches the caller.
\<close>

theorem getCurrentUser_parses:
  "(st ''user'' = None \<or> st ''user'' = Some [] \<longrightarrow> getCurrentUser st = Inr JNull) \<and>
   (\<forall>s v. st ''user'' = Some s \<and> s \<noteq> [] \<and> JSON_parse s = Inr v \<longrightarrow>
        getCurrentUser st = Inr v) \<and>
   (\<forall>s e. st ''user'' = Some s \<and> s \<noteq> [] \<and> JSON_parse s = Inl e \<longrightarrow>
        getCurrentUser st = Inl e)"
  by (auto simp: getCurrentUser_def str_truthy_def)

theorem getCurrentUser_parses_witness:
  \<open>getCurrentUser Map.empty = Inr JNull \<and>
   getCurrentUser [''user'' \<mapsto> ''{"id":"u1","role":"teacher"}''] =
     Inr (JObj [(''id'', JStr ''u1''), (''role'', JStr ''teacher'')]) \<and>
   getCurrentUser [''user'' \<mapsto> ''{"id":"u1","role":''] = Inl SyntaxError\<close>
proof -
  have p1: \<open>JSON_parse ''{"id":"u1","role":"teacher"}'' =
      Inr (JObj [(''id'', JStr ''u1''), (''role'', JStr ''teacher'')])\<close>
    by code_simp
  have p2: \<open>JSON_parse ''{"id":"u1","role":'' = Inl SyntaxError\<close>
    by code_simp
  show ?thesis
    using getCurrentUser_parses [of Map.empty]
      getCurrentUser_parses [of \<open>[''user'' \<mapsto> ''{"id":"u1","role":"teacher"}'']\<close>]
      getCurrentUser_parses [of \<open>[''user'' \<mapsto> ''{"id":"u1","role":'']\<close>]
      p1 p2
    by simp
qed

text \<open>The claim as stated fails on a truncated entry: the call throws.\<close>

theorem getCurrentUser_throws_counterexample:
  \<open>getCurrentUser [''user'' \<mapsto> ''{"id":"u1","name":"Ann"''] = Inl SyntaxError\<close>
  by code_simp

section \<open>Role ranks\<close>

text \<open>
  Claim C6: \<open>hasPermission\<close> is true exactly when a current user exists and the rank
  of its role is at least the rank of the required role, and an unknown role string
  resolves to false. The code does otherwise for role strings that name a property of
  \<open>Object.prototype\<close>: with the cached role \<open>constructor\<close> and the required role
  \<open>constructor\<close>, both lookups give the function \<open>Object\<close>, the comparison is
  between equal strings, and the result is true.
\<close>

theorem hasPermission_inherited_key:
  \<open>hasPermission [''user'' \<mapsto> ''{"id":"u1","name":"Ann","email":"ann@x.org","role":"constructor"}'']
     ''constructor'' = Inr True \<and>
   roles ''constructor'' = PFunction ''Object''\<close>
  by code_simp

text \<open>
  What does hold: no cached user gives false; a cached user with role teacher passes
  student and teacher and fails admin; and the result is false as soon as one of the two
  roles is in neither table, or exactly one of them is a role of the table.
\<close>

lemma js_ge_known:
  "js_ge (PNum m) (PNum n) = (n \<le> m)"
  "js_ge PUndefined b = False"
  "js_ge a PUndefined = False"
  "js_ge (PNum m) (PFunction f) = False"
  "js_ge (PFunction f) (PNum m) = False"
  "js_ge (PNum m) PObjectPrototype = False"
  "js_ge PObjectPrototype (PNum m) = False"
  by (cases a; cases b; simp add: js_ge_def)+

lemma hasPermission_no_user:
  "st ''user'' = None \<Longrightarrow> hasPermission st r = Inr False"
  by (simp add: hasPermission_def getCurrentUser_def)

lemma hasPermission_role:
  assumes "getCurrentUser st = Inr (JObj ms)" and "get_prop (JObj ms) ''role'' = JStr ur"
  shows "hasPermission st r = Inr (js_ge (roles ur) (roles r))"
  using assms by (simp add: hasPermission_def)

lemma roles_known:
  "roles ''admin'' = PNum 3" "roles ''teacher'' = PNum 2" "roles ''student'' = PNum 1"
  by (simp_all add: roles_def)

lemma hasPermission_teacher:
  assumes "getCurrentUser st = Inr (JObj ms)" and "get_prop (JObj ms) ''role'' = JStr ''teacher''"
  shows "hasPermission st ''student'' = Inr True" "hasPermission st ''teacher'' = Inr True"
        "hasPermission st ''admin'' = Inr False"
  using hasPermission_role [OF assms] by (simp_all add: roles_known js_ge_known)

lemma hasPermission_unknown:
  assumes "getCurrentUser st = Inr (JObj ms)" and "get_prop (JObj ms) ''role'' = JStr ur"
    and "roles ur = PUndefined \<or> roles r = PUndefined \<or>
         (\<exists>n. roles ur = PNum n) \<and> (\<forall>n. roles r \<noteq> PNum n) \<or>
         (\<forall>n. roles ur \<noteq> PNum n) \<and> (\<exists>n. roles r = PNum n)"
  shows "hasPermission st r = Inr False"
  using assms(3) hasPermission_role [OF assms(1,2), of r]
  by (cases "roles ur"; cases "roles r"; auto simp: js_ge_known)

section \<open>The client's login request\<close>

text \<open>
  The text that \<open>api.login\<close> sends parses to an object with the members email and
  password and no \<open>action\<close>: whatever the email, the password, the runtime and the
  storage, the Credential Issuer answers 400 and \<open>api.login\<close> throws.
\<close>

lemma lex_run_append:
  "lex_run st (xs @ ys) = (case lex_run st xs of Inl e \<Rightarrow> Inl e | Inr st' \<Rightarrow> lex_run st' ys)"
  by (induction xs arbitrary: st) (simp_all split: sum.splits)

lemma hex_digit_hex_char: "k < 16 \<Longrightarrow> hex_digit (hex_char k) = Some k"
  by (auto simp: hex_digit_def hex_char_def Let_def)

lemma hex_char_0: "hex_char 0 = CHR ''0''"
  by code_simp

lemma push_unit_ascii: "n < 0x80 \<Longrightarrow> push_unit acc n = char_of n # acc"
  by (simp add: push_unit_def wtf8_def split: list.splits option.splits)

lemma lex_unicode_escape:
  assumes "k1 < 16" "k2 < 16" "k3 < 16" "k4 < 16"
  shows "lex_run (LString acc, ts)
           (CHR 0x5C # CHR ''u'' # hex_char k1 # hex_char k2 # hex_char k3 # hex_char k4 # rest) =
         lex_run (LString (push_unit acc (4096 * k1 + 256 * k2 + 16 * k3 + k4)), ts) rest"
  using assms by (simp add: hex_digit_hex_char)

lemma lex_escape_char:
  "lex_run (LString acc, ts) (escape_char c @ rest) = lex_run (LString (c # acc), ts) rest"
proof -
  consider (q) "c = CHR 0x22" | (b) "c = CHR 0x5C" | (c8) "c = CHR 0x08" | (cC) "c = CHR 0x0C"
    | (cA) "c = CHR 0x0A" | (cD) "c = CHR 0x0D" | (c9) "c = CHR 0x09"
    | (ctl) "c \<notin> {CHR 0x22, CHR 0x5C, CHR 0x08, CHR 0x0C, CHR 0x0A, CHR 0x0D, CHR 0x09}"
        "(of_char c :: nat) < 32"
    | (plain) "c \<noteq> CHR 0x22" "c \<noteq> CHR 0x5C" "\<not> (of_char c :: nat) < 32"
    by auto
  then show ?thesis
  proof cases
    case ctl
    let ?n = "of_char c :: nat"
    have d: "?n div 16 < 16" "?n mod 16 < 16"
      using ctl(2) by auto
    have e: "escape_char c = [CHR 0x5C, CHR ''u'', hex_char 0, hex_char 0,
            hex_char (?n div 16), hex_char (?n mod 16)]"
      using ctl by (simp add: escape_char_def hex_char_0)
    have n: "4096 * 0 + 256 * 0 + 16 * (?n div 16) + ?n mod 16 = ?n"
      by simp
    have p: "push_unit acc ?n = c # acc"
      using ctl(2) push_unit_ascii [of ?n acc] by simp
    have "lex_run (LString acc, ts) (escape_char c @ rest) =
        lex_run (LString (push_unit acc (4096 * 0 + 256 * 0 + 16 * (?n div 16) + ?n mod 16)), ts) rest"
      unfolding e using lex_unicode_escape [of 0 0 "?n div 16" "?n mod 16" acc ts rest] d
      by simp
    then show ?thesis
      unfolding n p .
  next
    case plain
    then show ?thesis
      by (simp add: escape_char_def) (auto simp: escape_char_def)
  qed (simp_all add: escape_char_def unescape_def)
qed

lemma surrogate_of_range: "surrogate_of b1 b2 b3 = Some n \<Longrightarrow> n < 65536"
  by (auto simp: surrogate_of_def split: if_splits)

lemma lex_escape_str:
  "\<exists>acc'. lex_run (LString acc, ts) (escape_str s @ rest) = lex_run (LString acc', ts) rest"
proof (induction s arbitrary: acc rule: escape_str.induct)
  case (1 b1 b2 b3 cs)
  show ?case
  proof (cases "surrogate_of b1 b2 b3")
    case None
    obtain acc' where "lex_run (LString (b1 # acc), ts) (escape_str (b2 # b3 # cs) @ rest) =
        lex_run (LString acc', ts) rest"
      using "1.IH"(1) [OF None, of "b1 # acc"] by blast
    then show ?thesis
      using None by (auto simp add: lex_escape_char)
  next
    case (Some n)
    have k: "n div 4096 < 16" "n div 256 mod 16 < 16" "n div 16 mod 16 < 16" "n mod 16 < 16"
      using surrogate_of_range [OF Some] by auto
    obtain acc' where "lex_run (LString (push_unit acc
          (4096 * (n div 4096) + 256 * (n div 256 mod 16) + 16 * (n div 16 mod 16) + n mod 16)), ts)
        (escape_str cs @ rest) = lex_run (LString acc', ts) rest"
      using "1.IH"(2) [OF Some] by blast
    then show ?thesis
      using Some lex_unicode_escape [OF k, of acc ts "escape_str cs @ rest"]
      by auto
  qed
next
  case (2 c1 c2)
  have "lex_run (LString acc, ts) (escape_str [c1, c2] @ rest) =
      lex_run (LString (c2 # c1 # acc), ts) rest"
    using lex_escape_char [of acc ts c1 "escape_char c2 @ rest"]
      lex_escape_char [of "c1 # acc" ts c2 rest]
    by simp
  then show ?case by blast
next
  case (3 c)
  have "lex_run (LString acc, ts) (escape_str [c] @ rest) = lex_run (LString (c # acc), ts) rest"
    using lex_escape_char [of acc ts c rest] by simp
  then show ?case by blast
next
  case 4
  show ?case by (rule exI [of _ acc]) simp
qed

lemma lex_quote:
  "\<exists>s'. lex_run (LDefault, ts) (quote s @ rest) = lex_run (LDefault, TStr s' # ts) rest"
proof -
  obtain acc' where "lex_run (LString [], ts) (escape_str s @ CHR 0x22 # rest) =
      lex_run (LString acc', ts) (CHR 0x22 # rest)"
    using lex_escape_str [of "[]" ts s "CHR 0x22 # rest"] by blast
  then have "lex_run (LDefault, ts) (quote s @ rest) = lex_run (LDefault, TStr (rev acc') # ts) rest"
    by (simp add: quote_def default_char_def is_ws_def)
  then show ?thesis by blast
qed

lemma quote_email: "quote ''email'' = CHR 0x22 # ''email'' @ [CHR 0x22]"
  by code_simp

lemma quote_password: "quote ''password'' = CHR 0x22 # ''password'' @ [CHR 0x22]"
  by code_simp

lemma lex_login_body:
  "\<exists>v1' v2'.
     lex (CHR ''{'' # quote ''email'' @ CHR '':'' # quote v1 @ CHR '','' # quote ''password'' @
          CHR '':'' # quote v2 @ ''}'') =
     Inr [TLBrace, TStr ''email'', TColon, TStr v1', TComma, TStr ''password'', TColon, TStr v2',
          TRBrace]"
proof -
  have p: "default_char ts CHR ''{'' = Inr (LDefault, TLBrace # ts)"
    "default_char ts CHR '':'' = Inr (LDefault, TColon # ts)"
    "default_char ts CHR '','' = Inr (LDefault, TComma # ts)"
    "default_char ts CHR ''}'' = Inr (LDefault, TRBrace # ts)"
    "default_char ts CHR 0x22 = Inr (LString [], ts)" for ts
    by (simp_all add: default_char_def is_ws_def punct_def)
  have k1: "lex_run (LDefault, ts) (quote ''email'' @ rest) =
      lex_run (LDefault, TStr ''email'' # ts) rest" for ts rest
    unfolding quote_email by (simp add: p)
  have k2: "lex_run (LDefault, ts) (quote ''password'' @ rest) =
      lex_run (LDefault, TStr ''password'' # ts) rest" for ts rest
    unfolding quote_password by (simp add: p)
  define r2 where "r2 = ''}''"
  define r1 where "r1 = CHR '','' # quote ''password'' @ CHR '':'' # quote v2 @ r2"
  obtain v1' where v1: "lex_run (LDefault, [TColon, TStr ''email'', TLBrace]) (quote v1 @ r1) =
      lex_run (LDefault, TStr v1' # [TColon, TStr ''email'', TLBrace]) r1"
    using lex_quote by blast
  obtain v2' where v2: "lex_run (LDefault, [TColon, TStr ''password'', TComma, TStr v1', TColon,
        TStr ''email'', TLBrace]) (quote v2 @ r2) =
      lex_run (LDefault, TStr v2' # [TColon, TStr ''password'', TComma, TStr v1', TColon,
        TStr ''email'', TLBrace]) r2"
    using lex_quote by blast
  have "lex (CHR ''{'' # quote ''email'' @ CHR '':'' # quote v1 @ r1) =
     Inr [TLBrace, TStr ''email'', TColon, TStr v1', TComma, TStr ''password'', TColon, TStr v2',
          TRBrace]"
    unfolding lex_def
    by (simp add: p k1 v1) (simp add: r1_def p k2 v2, simp add: r2_def p)
  then show ?thesis
    unfolding r1_def r2_def by blast
qed

lemma parse_login_body:
  "\<exists>e' p'. JSON_parse (ser (JObj [(''email'', JStr e), (''password'', JStr p)])) =
     Inr (JObj [(''email'', JStr e'), (''password'', JStr p')])"
proof -
  have s: "ser (JObj [(''email'', JStr e), (''password'', JStr p)]) =
      CHR ''{'' # quote ''email'' @ CHR '':'' # quote e @ CHR '','' # quote ''password'' @
        CHR '':'' # quote p @ ''}''"
    by simp
  obtain e' p' where "lex (CHR ''{'' # quote ''email'' @ CHR '':'' # quote e @ CHR '','' #
        quote ''password'' @ CHR '':'' # quote p @ ''}'') =
     Inr [TLBrace, TStr ''email'', TColon, TStr e', TComma, TStr ''password'', TColon, TStr p',
          TRBrace]"
    using lex_login_body by blast
  then have "JSON_parse (ser (JObj [(''email'', JStr e), (''password'', JStr p)])) =
     Inr (JObj [(''email'', JStr e'), (''password'', JStr p')])"
    unfolding s JSON_parse_def by simp
  then show ?thesis by blast
qed

lemma login_request_rejected:
  "auth_handler rt d (login_request email password) =
     \<lparr>statusCode = 400, resp_body = message ''Invalid action''\<rparr>"
proof -
  let ?b = "JObj [(''email'', JStr email), (''password'', JStr password)]"
  obtain e' p' where pr: "JSON_parse (ser ?b) = Inr (JObj [(''email'', JStr e'), (''password'', JStr p')])"
    using parse_login_body by blast
  have ne: "ser ?b \<noteq> []"
    by simp
  have "body_or_empty (login_request email password) = ser ?b"
    using ne by (simp add: body_or_empty_def login_request_def JSON_stringify_def str_truthy_def
        del: ser.simps)
  then have "parse_object (body_or_empty (login_request email password)) =
      Inr (JObj [(''email'', JStr e'), (''password'', JStr p')])"
    by (simp add: parse_object_def pr del: ser.simps)
  then show ?thesis
    by (simp add: auth_handler_def auth_try_def login_request_def del: ser.simps)
qed

lemma api_login_throws:
  "api_login rt d email password = Inl (Error ''Invalid action'')"
proof -
  have "handleResponse \<lparr>statusCode = 400, resp_body = message ''Invalid action''\<rparr> =
      Inl (Error ''Invalid action'')"
    by code_simp
  then show ?thesis
    by (simp add: api_login_def login_request_rejected)
qed

text \<open>
  Claim C8: for an email and password matching a stored identity, the request that
  \<open>api.login\<close> sends to POST /auth is accepted by the Credential Issuer with status
  200 and \<open>{token, user}\<close>. The code does otherwise: the body that \<open>api.login\<close> builds
  has no \<open>action\<close> member, so for the stored identity of the sample storage and its
  password the handler answers 400 \<open>Invalid action\<close> and \<open>api.login\<close> throws that
  message, while the same credentials sent with \<open>action: "login"\<close> are answered 200.
\<close>

theorem api_login_invalid_action:
  \<open>auth_handler sample_rt sample_db (login_request ''ann@x.org'' ''pw'') =
     \<lparr>statusCode = 400, resp_body = message ''Invalid action''\<rparr> \<and>
   api_login sample_rt sample_db ''ann@x.org'' ''pw'' = Inl (Error ''Invalid action'') \<and>
   statusCode (auth_handler sample_rt sample_db
     \<lparr>httpMethod = ''POST'', headers_authorization = None,
      body = Some ''{"email":"ann@x.org","password":"pw","action":"login"}''\<rparr>) = 200\<close>
  by code_simp

section \<open>Issuing a token and verifying it\<close>

lemma auth_handler_login:
  assumes "httpMethod ev = ''POST''"
    and "JSON_parse (body_or_empty ev) = Inr b"
    and "get_prop b ''email'' = JStr email"
    and "get_prop b ''password'' = JStr password"
    and "get_prop b ''action'' = JStr ''login''"
  shows "auth_handler rt d ev =
     (case find (\<lambda>u. user_email u = email) (db_users d) of
        None \<Rightarrow> \<lparr>statusCode = 401, resp_body = message ''Invalid credentials''\<rparr>
      | Some u \<Rightarrow>
          if bcrypt_compare rt password (user_password u)
          then \<lparr>statusCode = 200,
                resp_body = JSON_stringify (login_body (issue_token rt u) u)\<rparr>
          else \<lparr>statusCode = 401, resp_body = message ''Invalid credentials''\<rparr>)"
proof -
  from assms have "b \<noteq> JNull" by auto
  then have "parse_object (body_or_empty ev) = Inr b"
    using assms(2) by (simp add: parse_object_def)
  then show ?thesis
    using assms
    by (simp add: auth_handler_def auth_try_def user_findUnique_def compare_password_def
        split: option.splits)
qed

text \<open>
  Claim C2: take a login request (POST, a body that parses to an object with string
  \<open>email\<close> and \<open>password\<close> and \<open>action: "login"\<close>) and a signing primitive that
  round-trips on userId (verifying a token it signed for \<open>{userId}\<close> under the same
  secret returns a payload with that userId). If the email is that of a stored identity
  and the password matches its hash, the Credential Issuer answers 200 with the token it
  signed for that identity, and the Resource Handler's \<open>verifyToken\<close> decodes that
  token to the identity's id. If no stored identity matches the pair, the answer is 401
  \<open>Invalid credentials\<close>, a body without a token.
\<close>

theorem issue_then_verify:
  assumes "httpMethod ev = ''POST''"
    and "JSON_parse (body_or_empty ev) = Inr b"
    and "get_prop b ''email'' = JStr email"
    and "get_prop b ''password'' = JStr password"
    and "get_prop b ''action'' = JStr ''login''"
    and "\<forall>uid k. \<exists>p. jwt_verify rt (jwt_sign rt (JObj [(''userId'', JStr uid)]) k) k = Inr p \<and>
                    get_prop p ''userId'' = JStr uid"
  shows "(\<forall>u. find (\<lambda>u. user_email u = email) (db_users d) = Some u \<and>
              bcrypt_compare rt password (user_password u) \<longrightarrow>
            auth_handler rt d ev =
              \<lparr>statusCode = 200,
               resp_body = JSON_stringify (login_body (issue_token rt u) u)\<rparr> \<and>
            get_prop (login_body (issue_token rt u) u) ''token'' = JStr (issue_token rt u) \<and>
            get_prop (verifyToken rt (issue_token rt u)) ''userId'' = JStr (user_id u)) \<and>
         ((\<forall>u. find (\<lambda>u. user_email u = email) (db_users d) = Some u \<longrightarrow>
               \<not> bcrypt_compare rt password (user_password u)) \<longrightarrow>
            auth_handler rt d ev =
              \<lparr>statusCode = 401, resp_body = message ''Invalid credentials''\<rparr>)"
proof -
  note h = auth_handler_login [OF assms(1-5), of rt d]
  have v: "get_prop (verifyToken rt (issue_token rt u)) ''userId'' = JStr (user_id u)" for u
  proof -
    obtain p where
      "jwt_verify rt (jwt_sign rt (JObj [(''userId'', JStr (user_id u))]) (JWT_SECRET rt))
         (JWT_SECRET rt) = Inr p" and "get_prop p ''userId'' = JStr (user_id u)"
      using assms(6) by blast
    then show ?thesis
      by (simp add: verifyToken_def issue_token_def)
  qed
  have t: "get_prop (login_body tok u) ''token'' = JStr tok" for tok u
    by (simp add: login_body_def user_json_def)
  show ?thesis
    using h v t by (auto split: option.splits)
qed

text \<open>The sample signing primitive round-trips.\<close>

lemma sample_roundtrip:
  "\<forall>uid k. \<exists>p. jwt_verify sample_rt (jwt_sign sample_rt (JObj [(''userId'', JStr uid)]) k) k = Inr p \<and>
                get_prop p ''userId'' = JStr uid"
  by (simp add: sample_rt_def sample_sign_def sample_verify_def)

theorem issue_then_verify_witness:
  \<open>auth_handler sample_rt sample_db
      \<lparr>httpMethod = ''POST'', headers_authorization = None,
       body = Some ''{"email":"ann@x.org","password":"pw","action":"login"}''\<rparr> =
     \<lparr>statusCode = 200,
      resp_body = JSON_stringify (login_body (issue_token sample_rt ann) ann)\<rparr> \<and>
   issue_token sample_rt ann = ''your-secret-key.u1'' \<and>
   get_prop (verifyToken sample_rt (issue_token sample_rt ann)) ''userId'' = JStr ''u1'' \<and>
   auth_handler sample_rt sample_db
      \<lparr>httpMethod = ''POST'', headers_authorization = None,
       body = Some ''{"email":"ann@x.org","password":"wrong","action":"login"}''\<rparr> =
     \<lparr>statusCode = 401, resp_body = message ''Invalid credentials''\<rparr>\<close>
proof -
  let ?e1 = \<open>\<lparr>httpMethod = ''POST'', headers_authorization = None,
       body = Some ''{"email":"ann@x.org","password":"pw","action":"login"}''\<rparr>\<close>
  let ?e2 = \<open>\<lparr>httpMethod = ''POST'', headers_authorization = None,
       body = Some ''{"email":"ann@x.org","password":"wrong","action":"login"}''\<rparr>\<close>
  let ?b1 = "JObj [(''email'', JStr ''ann@x.org''), (''password'', JStr ''pw''),
                   (''action'', JStr ''login'')]"
  let ?b2 = "JObj [(''email'', JStr ''ann@x.org''), (''password'', JStr ''wrong''),
                   (''action'', JStr ''login'')]"
  have m: "httpMethod ?e1 = ''POST''" "httpMethod ?e2 = ''POST''"
    by simp_all
  have p1: "JSON_parse (body_or_empty ?e1) = Inr ?b1"
    by code_simp
  have p2: "JSON_parse (body_or_empty ?e2) = Inr ?b2"
    by code_simp
  have g1: "get_prop ?b1 ''email'' = JStr ''ann@x.org''" "get_prop ?b1 ''password'' = JStr ''pw''"
    "get_prop ?b1 ''action'' = JStr ''login''"
    by simp_all
  have g2: "get_prop ?b2 ''email'' = JStr ''ann@x.org''" "get_prop ?b2 ''password'' = JStr ''wrong''"
    "get_prop ?b2 ''action'' = JStr ''login''"
    by simp_all
  have f: "find (\<lambda>u. user_email u = ''ann@x.org'') (db_users sample_db) = Some ann"
    by (simp add: sample_db_def ann_def)
  have c1: "bcrypt_compare sample_rt ''pw'' (user_password ann)"
    by (simp add: sample_rt_def ann_def)
  have c2: "\<not> bcrypt_compare sample_rt ''wrong'' (user_password ann)"
    by (simp add: sample_rt_def ann_def)
  have i: "issue_token sample_rt ann = ''your-secret-key.u1''"
    by code_simp
  have u: "user_id ann = ''u1''"
    by (simp add: ann_def)
  from issue_then_verify [OF m(1) p1 g1 sample_roundtrip, of sample_db] f c1
  have r1: "auth_handler sample_rt sample_db ?e1 =
       \<lparr>statusCode = 200,
        resp_body = JSON_stringify (login_body (issue_token sample_rt ann) ann)\<rparr> \<and>
     get_prop (verifyToken sample_rt (issue_token sample_rt ann)) ''userId'' = JStr (user_id ann)"
    by blast
  from issue_then_verify [OF m(2) p2 g2 sample_roundtrip, of sample_db] f c2
  have r2: "auth_handler sample_rt sample_db ?e2 =
       \<lparr>statusCode = 401, resp_body = message ''Invalid credentials''\<rparr>"
    by simp
  from r1 r2 i u show ?thesis
    by simp
qed

section \<open>Stored passwords and response bodies\<close>

lemma strip_fields:
  "user_id (strip_password u) = user_id u" "user_name (strip_password u) = user_name u"
  "user_email (strip_password u) = user_email u" "user_role (strip_password u) = user_role u"
  "user_avatarUrl (strip_password u) = user_avatarUrl u"
  by (simp_all add: strip_password_def)

lemma strip_eq_fields:
  assumes "strip_password u1 = strip_password u2"
  shows "user_id u1 = user_id u2 \<and> user_name u1 = user_name u2 \<and> user_email u1 = user_email u2 \<and>
         user_role u1 = user_role u2 \<and> user_avatarUrl u1 = user_avatarUrl u2"
  using assms by (cases u1; cases u2) (simp add: strip_password_def)

lemma find_strip:
  assumes "map strip_password us1 = map strip_password us2"
    and "\<And>u. P (strip_password u) = P u"
  shows "map_option strip_password (find P us1) = map_option strip_password (find P us2)"
  using assms(1)
proof (induction us1 arbitrary: us2)
  case Nil
  then show ?case by simp
next
  case (Cons u us1)
  then obtain v vs where v: "us2 = v # vs" "strip_password u = strip_password v"
    "map strip_password us1 = map strip_password vs"
    by auto
  have "P u = P v"
    using assms(2) [of u] assms(2) [of v] v(2) by simp
  then show ?case
    using Cons.IH [OF v(3)] v by simp
qed

lemma find_by_id_strip:
  assumes "map strip_password us1 = map strip_password us2"
  shows "map_option strip_password (find (\<lambda>u. user_id u = a) us1) =
         map_option strip_password (find (\<lambda>u. user_id u = a) us2)"
  by (rule find_strip [OF assms]) (simp add: strip_fields)

lemma find_by_email_strip:
  assumes "map strip_password us1 = map strip_password us2"
  shows "map_option strip_password (find (\<lambda>u. user_email u = e) us1) =
         map_option strip_password (find (\<lambda>u. user_email u = e) us2)"
  by (rule find_strip [OF assms]) (simp add: strip_fields)

lemma author_select_strip:
  "strip_password u1 = strip_password u2 \<Longrightarrow> author_select u1 = author_select u2"
  using strip_eq_fields [of u1 u2] by (simp add: author_select_def)

lemma login_body_strip:
  "strip_password u1 = strip_password u2 \<Longrightarrow> login_body t u1 = login_body t u2"
  using strip_eq_fields [of u1 u2] by (simp add: login_body_def user_json_def)

lemma issue_token_strip:
  "strip_password u1 = strip_password u2 \<Longrightarrow> issue_token rt u1 = issue_token rt u2"
  using strip_eq_fields [of u1 u2] by (simp add: issue_token_def)

lemma post_author_strip:
  assumes "map strip_password (db_users d1) = map strip_password (db_users d2)"
  shows "post_author d1 p = post_author d2 p"
proof -
  note f = find_by_id_strip [OF assms, of "post_authorId p"]
  show ?thesis
  proof (cases "find (\<lambda>u. user_id u = post_authorId p) (db_users d1)")
    case None
    then show ?thesis using f by (simp add: post_author_def)
  next
    case (Some u1)
    then obtain u2 where u2: "find (\<lambda>u. user_id u = post_authorId p) (db_users d2) = Some u2"
      and st: "strip_password u1 = strip_password u2"
      using f by (cases "find (\<lambda>u. user_id u = post_authorId p) (db_users d2)") auto
    show ?thesis
      using Some u2 author_select_strip [OF st] by (simp add: post_author_def)
  qed
qed

lemma post_json_strip:
  assumes "same_but_passwords d1 d2"
  shows "post_json d1 p = post_json d2 p"
  using assms post_author_strip [of d1 d2 p]
  by (simp add: post_json_def post_tag_rows_def same_but_passwords_def)

lemma coc_set_users:
  "connect_or_create rt (d\<lparr>db_users := us\<rparr>, l) n =
     ((fst (connect_or_create rt (d, l) n))\<lparr>db_users := us\<rparr>, snd (connect_or_create rt (d, l) n))"
  by (simp add: connect_or_create_def Let_def split: option.splits)

lemma fold_coc_set_users:
  "foldl (connect_or_create rt) (d\<lparr>db_users := us\<rparr>, l) ns =
     ((fst (foldl (connect_or_create rt) (d, l) ns))\<lparr>db_users := us\<rparr>,
      snd (foldl (connect_or_create rt) (d, l) ns))"
proof (induction ns arbitrary: d l)
  case Nil
  then show ?case by simp
next
  case (Cons n ns)
  show ?case
    using Cons.IH [where d = "fst (connect_or_create rt (d, l) n)"
        and l = "snd (connect_or_create rt (d, l) n)"]
    by (simp add: coc_set_users)
qed

lemma same_but_passwords_set_users:
  "same_but_passwords d1 d2 \<Longrightarrow> d1 = d2\<lparr>db_users := db_users d1\<rparr>"
  by (cases d1; cases d2) (simp add: same_but_passwords_def)

lemma post_create_set_users:
  assumes "map strip_password us = map strip_password (db_users d)"
  shows "post_create rt (d\<lparr>db_users := us\<rparr>) t c g a ns =
     (case post_create rt d t c g a ns of
        Inl e \<Rightarrow> Inl e
      | Inr (p, d') \<Rightarrow> Inr (p, d'\<lparr>db_users := us\<rparr>))"
proof -
  have f: "(find (\<lambda>u. user_id u = x) us = None) = (find (\<lambda>u. user_id u = x) (db_users d) = None)" for x
    using find_by_id_strip [OF assms, of x]
    by (cases "find (\<lambda>u. user_id u = x) us"; cases "find (\<lambda>u. user_id u = x) (db_users d)") auto
  have comm: "(d\<lparr>db_users := us\<rparr>)\<lparr>db_next := n\<rparr> = (d\<lparr>db_next := n\<rparr>)\<lparr>db_users := us\<rparr>" for n
    by (cases d) simp
  have u: "foldl (connect_or_create rt) ((d\<lparr>db_users := us\<rparr>)\<lparr>db_next := n\<rparr>, []) xs =
      ((fst (foldl (connect_or_create rt) (d\<lparr>db_next := n\<rparr>, []) xs))\<lparr>db_users := us\<rparr>,
       snd (foldl (connect_or_create rt) (d\<lparr>db_next := n\<rparr>, []) xs))" for n xs
    using fold_coc_set_users [where d = "d\<lparr>db_next := n\<rparr>" and us = us and l = "[]" and ns = xs and rt = rt]
    by (simp add: comm)
  show ?thesis
  proof (cases "as_strings [t, c, g, a]")
    case (Inl e)
    then show ?thesis unfolding post_create_def by simp
  next
    case cols: (Inr cols)
    show ?thesis
    proof (cases "as_strings ns")
      case (Inl e)
      then show ?thesis unfolding post_create_def using cols by simp
    next
      case names: (Inr names)
      show ?thesis
      proof (cases "cols ! 2 \<in> set categories")
        case False
        then show ?thesis
          unfolding post_create_def using cols names by simp
      next
        case cat: True
        show ?thesis
        proof (cases "find (\<lambda>u. user_id u = cols ! 3) (db_users d) = None")
          case True
          then show ?thesis
            unfolding post_create_def using cols names cat f [of "cols ! 3"] by simp
        next
          case False
          then show ?thesis
            unfolding post_create_def
            using cols names cat f [of "cols ! 3"] u [of "Suc (db_next d)" names]
            by (simp add: Let_def)
        qed
      qed
    qed
  qed
qed

lemma create_post_strip:
  assumes "same_but_passwords d1 d2"
  shows "create_post rt d1 dec ev =
     (case create_post rt d2 dec ev of
        Inl e \<Rightarrow> Inl e
      | Inr (p, d') \<Rightarrow> Inr (p, d'\<lparr>db_users := db_users d1\<rparr>))"
proof -
  have m: "map strip_password (db_users d1) = map strip_password (db_users d2)"
    using assms by (simp add: same_but_passwords_def)
  have e: "d1 = d2\<lparr>db_users := db_users d1\<rparr>"
    by (rule same_but_passwords_set_users [OF assms])
  have "create_post rt (d2\<lparr>db_users := db_users d1\<rparr>) dec ev =
     (case create_post rt d2 dec ev of
        Inl e \<Rightarrow> Inl e
      | Inr (p, d') \<Rightarrow> Inr (p, d'\<lparr>db_users := db_users d1\<rparr>))"
    unfolding create_post_def
    by (simp add: post_create_set_users [OF m] Let_def split: sum.splits)
  then show ?thesis
    using e by simp
qed

lemma create_post_users:
  assumes "create_post rt d dec ev = Inr (p, d')"
  shows "db_users d' = db_users d"
proof -
  from create_post_Inr [OF assms] obtain b names where
    "post_create rt d (get_prop b ''title'') (get_prop b ''content'')
       (get_prop b ''category'') (get_prop dec ''userId'') names = Inr (p, d')"
    by blast
  from post_create_Inr [OF this] show ?thesis
    by (auto simp: fold_coc_users)
qed

lemma posts_handler_strip:
  assumes "same_but_passwords d1 d2"
  shows "fst (posts_handler rt d1 ev) = fst (posts_handler rt d2 ev) \<and>
         same_but_passwords (snd (posts_handler rt d1 ev)) (snd (posts_handler rt d2 ev))"
proof (cases "create_post rt d2 (decoded rt ev) ev")
  case (Inl e)
  then have "create_post rt d1 (decoded rt ev) ev = Inl e"
    using create_post_strip [OF assms, of rt "decoded rt ev" ev] by simp
  moreover have "post_json d1 = post_json d2"
    by (rule ext) (rule post_json_strip [OF assms])
  ultimately show ?thesis
    using Inl assms
    by (simp add: posts_handler_def Let_def same_but_passwords_def)
next
  case (Inr r)
  obtain p d2' where r: "r = (p, d2')" by (cases r)
  have c2: "create_post rt d2 (decoded rt ev) ev = Inr (p, d2')"
    using Inr r by simp
  have c1: "create_post rt d1 (decoded rt ev) ev = Inr (p, d2'\<lparr>db_users := db_users d1\<rparr>)"
    using create_post_strip [OF assms, of rt "decoded rt ev" ev] c2 by simp
  have u2: "db_users d2' = db_users d2"
    by (rule create_post_users [OF c2])
  have s: "same_but_passwords (d2'\<lparr>db_users := db_users d1\<rparr>) d2'"
    using assms u2 by (simp add: same_but_passwords_def)
  have pj: "post_json d1 = post_json d2"
    by (rule ext) (rule post_json_strip [OF assms])
  have db: "db_posts d1 = db_posts d2"
    using assms by (simp add: same_but_passwords_def)
  show ?thesis
    using c1 c2 s assms post_json_strip [OF s, of p]
    by (simp add: posts_handler_def Let_def pj db)
qed

lemma auth_try_strip:
  assumes "same_but_passwords d1 d2"
    and "auth_try rt d1 ev = Inr r1"
  shows "\<exists>r2. auth_try rt d2 ev = Inr r2 \<and> (statusCode r1 = statusCode r2 \<longrightarrow> r1 = r2)"
proof -
  have m: "map strip_password (db_users d1) = map strip_password (db_users d2)"
    using assms(1) by (simp add: same_but_passwords_def)
  obtain b where b: "parse_object (body_or_empty ev) = Inr b"
    using assms(2) by (cases "parse_object (body_or_empty ev)") (auto simp: auth_try_def)
  show ?thesis
  proof (cases "get_prop b ''action'' = JStr ''login''")
    case False
    then show ?thesis
      using assms(2) b by (auto simp: auth_try_def)
  next
    case True
    obtain e where e: "get_prop b ''email'' = JStr e"
      using assms(2) b True
      by (cases "get_prop b ''email''") (auto simp: auth_try_def user_findUnique_def)
    note f = find_by_email_strip [OF m, of e]
    show ?thesis
    proof (cases "find (\<lambda>u. user_email u = e) (db_users d1)")
      case None
      then have "find (\<lambda>u. user_email u = e) (db_users d2) = None"
        using f by simp
      then show ?thesis
        using assms(2) b True e None by (auto simp: auth_try_def user_findUnique_def)
    next
      case (Some u1)
      then obtain u2 where u2: "find (\<lambda>u. user_email u = e) (db_users d2) = Some u2"
        and st: "strip_password u1 = strip_password u2"
        using f by (cases "find (\<lambda>u. user_email u = e) (db_users d2)") auto
      obtain pw where pw: "get_prop b ''password'' = JStr pw"
        using assms(2) b True e Some
        by (cases "get_prop b ''password''")
          (auto simp: auth_try_def user_findUnique_def compare_password_def)
      have r1: "r1 = (if bcrypt_compare rt pw (user_password u1)
                     then \<lparr>statusCode = 200,
                           resp_body = JSON_stringify (login_body (issue_token rt u1) u1)\<rparr>
                     else \<lparr>statusCode = 401, resp_body = message ''Invalid credentials''\<rparr>)"
        using assms(2) b True e Some pw
        by (auto simp: auth_try_def user_findUnique_def compare_password_def)
      have r2: "auth_try rt d2 ev =
                  Inr (if bcrypt_compare rt pw (user_password u2)
                       then \<lparr>statusCode = 200,
                             resp_body = JSON_stringify (login_body (issue_token rt u2) u2)\<rparr>
                       else \<lparr>statusCode = 401, resp_body = message ''Invalid credentials''\<rparr>)"
        using b True e u2 pw
        by (auto simp: auth_try_def user_findUnique_def compare_password_def)
      show ?thesis
        using r1 r2 login_body_strip [OF st] issue_token_strip [OF st, of rt]
        by auto
    qed
  qed
qed

lemma auth_try_strip_Inl:
  assumes "same_but_passwords d1 d2"
    and "auth_try rt d1 ev = Inl e1"
  shows "\<exists>e2. auth_try rt d2 ev = Inl e2"
proof (cases "auth_try rt d2 ev")
  case (Inl e2)
  then show ?thesis by blast
next
  case (Inr r2)
  have "same_but_passwords d2 d1"
    using assms(1) by (simp add: same_but_passwords_def)
  from auth_try_strip [OF this Inr] assms(2) show ?thesis
    by auto
qed

lemma auth_handler_strip:
  assumes "same_but_passwords d1 d2"
    and "statusCode (auth_handler rt d1 ev) = statusCode (auth_handler rt d2 ev)"
  shows "auth_handler rt d1 ev = auth_handler rt d2 ev"
proof (cases "httpMethod ev = ''POST''")
  case False
  then show ?thesis by (simp add: auth_handler_def)
next
  case True
  show ?thesis
  proof (cases "auth_try rt d1 ev")
    case (Inl e1)
    then obtain e2 where "auth_try rt d2 ev = Inl e2"
      using auth_try_strip_Inl [OF assms(1)] by blast
    then show ?thesis
      using Inl True by (simp add: auth_handler_def)
  next
    case (Inr r1)
    then obtain r2 where "auth_try rt d2 ev = Inr r2"
      and "statusCode r1 = statusCode r2 \<longrightarrow> r1 = r2"
      using auth_try_strip [OF assms(1)] by blast
    then show ?thesis
      using Inr True assms(2) by (simp add: auth_handler_def)
  qed
qed

text \<open>The login body: the token and the identity's columns, the password undefined.\<close>

lemma login_body_members:
  "login_body t u =
     JObj [(''token'', JStr t),
           (''user'', JObj [(''id'', JStr (user_id u)), (''name'', JStr (user_name u)),
                            (''email'', JStr (user_email u)), (''role'', JStr (user_role u)),
                            (''avatarUrl'', opt_json (user_avatarUrl u)),
                            (''password'', Undefined)])]"
  by (simp add: login_body_def user_json_def)

text \<open>
  Claim C7: no response body contains a stored password. For two storage states that
  differ at most in the stored password hashes, the Resource Handler gives the same
  response to every request (and leaves storages that again differ at most in the
  hashes), and the Credential Issuer gives the same response whenever the
  authentication outcome, that is the status, is the same. The login body and the
  author projection do not depend on the hash: the login body's \<open>password\<close> is
  undefined, which \<open>JSON.stringify\<close> leaves out, and the author projection has no
  such key.
\<close>

theorem responses_independent_of_passwords:
  assumes "same_but_passwords d1 d2"
  shows "fst (posts_handler rt d1 ev) = fst (posts_handler rt d2 ev) \<and>
         same_but_passwords (snd (posts_handler rt d1 ev)) (snd (posts_handler rt d2 ev)) \<and>
         (statusCode (auth_handler rt d1 ev) = statusCode (auth_handler rt d2 ev) \<longrightarrow>
            auth_handler rt d1 ev = auth_handler rt d2 ev) \<and>
         (\<forall>t u h. login_body t (u\<lparr>user_password := h\<rparr>) = login_body t u \<and>
                  get_prop (get_prop (login_body t u) ''user'') ''password'' = Undefined \<and>
                  author_select (u\<lparr>user_password := h\<rparr>) = author_select u \<and>
                  ''password'' \<notin> set (keys (author_select u)))"
proof -
  have "login_body t (u\<lparr>user_password := h\<rparr>) = login_body t u \<and>
        get_prop (get_prop (login_body t u) ''user'') ''password'' = Undefined \<and>
        author_select (u\<lparr>user_password := h\<rparr>) = author_select u \<and>
        ''password'' \<notin> set (keys (author_select u))" for t u h
    by (simp add: login_body_def user_json_def author_select_def)
  then show ?thesis
    using posts_handler_strip [OF assms, of rt ev] auth_handler_strip [OF assms, of rt ev]
    by blast
qed

theorem responses_independent_of_passwords_witness:
  \<open>same_but_passwords sample_db (sample_db\<lparr>db_users := [ann\<lparr>user_password := ''#other''\<rparr>]\<rparr>) \<and>
   fst (posts_handler sample_rt sample_db
          \<lparr>httpMethod = ''POST'', headers_authorization = Some ''Bearer your-secret-key.u1'',
           body = Some ''{"title":"T","content":"C","category":"tech","tags":[]}''\<rparr>) =
   fst (posts_handler sample_rt (sample_db\<lparr>db_users := [ann\<lparr>user_password := ''#other''\<rparr>]\<rparr>)
          \<lparr>httpMethod = ''POST'', headers_authorization = Some ''Bearer your-secret-key.u1'',
           body = Some ''{"title":"T","content":"C","category":"tech","tags":[]}''\<rparr>)\<close>
proof -
  have s: "same_but_passwords sample_db (sample_db\<lparr>db_users := [ann\<lparr>user_password := ''#other''\<rparr>]\<rparr>)"
    by (simp add: same_but_passwords_def sample_db_def strip_password_def)
  from responses_independent_of_passwords [OF s] s show ?thesis
    by blast
qed

section \<open>Tags of a created article\<close>

lemma post_tag_rows_names:
  assumes "distinct (map tag_name ts)" and "set ns \<subseteq> tag_name ` set ts"
  shows "tag_name ` set (filter (\<lambda>t. tag_name t \<in> set ns) ts) = set ns \<and>
         length (filter (\<lambda>t. tag_name t \<in> set ns) ts) = card (set ns)"
proof -
  have s: "tag_name ` set (filter (\<lambda>t. tag_name t \<in> set ns) ts) = set ns"
    using assms(2) by auto
  have d: "distinct (map tag_name (filter (\<lambda>t. tag_name t \<in> set ns) ts))"
    using assms(1) by (simp add: distinct_map_filter)
  have "card (set ns) = card (set (map tag_name (filter (\<lambda>t. tag_name t \<in> set ns) ts)))"
    using s by simp
  also have "\<dots> = length (map tag_name (filter (\<lambda>t. tag_name t \<in> set ns) ts))"
    by (rule distinct_card [OF d])
  finally show ?thesis
    using s by simp
qed

text \<open>
  Claim C9: get-or-create by name. For every accepted create request on a storage whose
  tag names are unique, the body's tags are a list of names; the tags stored before
  stay as they are, one tag is added for each name (once) that had none, and tag names
  stay unique; the article is linked to exactly the tags named, each once, so the number
  of its tags is the number of distinct names; a tag that existed under one of the names
  is among the article's tags.
\<close>

theorem tags_get_or_create:
  assumes "posts_handler rt d ev = (r, d')" and "statusCode r = 201"
    and "distinct (map tag_name (db_tags d))"
  shows "\<exists>b ns p new.
           JSON_parse (body_or_empty ev) = Inr b \<and> get_prop b ''tags'' = JArr (map JStr ns) \<and>
           db_posts d' = db_posts d @ [p] \<and>
           db_tags d' = db_tags d @ new \<and>
           distinct (map tag_name (db_tags d')) \<and>
           tag_name ` set new = set ns - tag_name ` set (db_tags d) \<and>
           distinct (post_tags p) \<and> set (post_tags p) = set ns \<and>
           tag_name ` set (post_tag_rows d' p) = set ns \<and>
           length (post_tag_rows d' p) = card (set ns) \<and>
           (\<forall>t \<in> set (db_tags d). tag_name t \<in> set ns \<longrightarrow> t \<in> set (post_tag_rows d' p))"
proof -
  from posts_handler_201 [OF assms(1,2)] obtain p where
    c: "create_post rt d (decoded rt ev) ev = Inr (p, d')"
    by blast
  from create_post_Inr [OF c] obtain b names where
    po: "parse_object (body_or_empty ev) = Inr b" and
    tm: "tags_map (get_prop b ''tags'') = Inr names" and
    pc: "post_create rt d (get_prop b ''title'') (get_prop b ''content'')
           (get_prop b ''category'') (get_prop (decoded rt ev) ''userId'') names = Inr (p, d')"
    by blast
  have jp: "JSON_parse (body_or_empty ev) = Inr b"
    using po by (auto simp: parse_object_def split: sum.splits if_splits)
  let ?d1 = "d\<lparr>db_next := Suc (db_next d)\<rparr>"
  from post_create_Inr [OF pc] obtain ns where
    ns: "names = map JStr ns" and
    pt: "post_tags p = snd (foldl (connect_or_create rt) (?d1, []) ns)" and
    d': "d' = (fst (foldl (connect_or_create rt) (?d1, []) ns))\<lparr>db_posts := db_posts d @ [p]\<rparr>"
    by auto
  have tg: "get_prop b ''tags'' = JArr (map JStr ns)"
    using tm ns by (cases "get_prop b ''tags''") (auto simp: tags_map_def)
  have "distinct (map tag_name (db_tags (fst (?d1, []::string list))))"
    using assms(3) by simp
  from fold_coc_tags [OF this, of rt ns] obtain new where
    n1: "db_tags (fst (foldl (connect_or_create rt) (?d1, []) ns)) = db_tags d @ new" and
    n2: "distinct (map tag_name (db_tags d @ new))" and
    n3: "tag_name ` set new = set ns - tag_name ` set (db_tags d)"
    by auto
  have t': "db_tags d' = db_tags d @ new"
    using n1 by (simp add: d')
  have "distinct (snd (?d1, []::string list))"
    by simp
  from fold_coc_linked [OF this, of rt ns]
  have l: "distinct (post_tags p)" "set (post_tags p) = set ns"
    by (simp_all add: pt)
  have sub: "set (post_tags p) \<subseteq> tag_name ` set (db_tags d')"
    using l(2) n3 t' by auto
  have dd: "distinct (map tag_name (db_tags d'))"
    using n2 t' by simp
  from post_tag_rows_names [OF dd sub]
  have rows: "tag_name ` set (post_tag_rows d' p) = set ns"
    "length (post_tag_rows d' p) = card (set ns)"
    using l(2) by (simp_all add: post_tag_rows_def)
  have old: "\<forall>t \<in> set (db_tags d). tag_name t \<in> set ns \<longrightarrow> t \<in> set (post_tag_rows d' p)"
    using t' l(2) by (simp add: post_tag_rows_def)
  have ps: "db_posts d' = db_posts d @ [p]"
    by (simp add: d')
  show ?thesis
    using jp tg ps t' dd n3 l rows old by blast
qed

text \<open>
  On the sample storage, tags a, a, b give two tags; a second article with tag a leaves
  the tag table as it was.
\<close>

theorem tags_get_or_create_witness:
  \<open>statusCode (fst (posts_handler sample_rt sample_db
      \<lparr>httpMethod = ''POST'', headers_authorization = Some ''Bearer your-secret-key.u1'',
       body = Some ''{"title":"T","content":"C","category":"tech","tags":["a","a","b"]}''\<rparr>)) = 201 \<and>
   (\<exists>p. db_posts (snd (posts_handler sample_rt sample_db
      \<lparr>httpMethod = ''POST'', headers_authorization = Some ''Bearer your-secret-key.u1'',
       body = Some ''{"title":"T","content":"C","category":"tech","tags":["a","a","b"]}''\<rparr>)) = [p] \<and>
     length (post_tag_rows (snd (posts_handler sample_rt sample_db
      \<lparr>httpMethod = ''POST'', headers_authorization = Some ''Bearer your-secret-key.u1'',
       body = Some ''{"title":"T","content":"C","category":"tech","tags":["a","a","b"]}''\<rparr>)) p) = 2) \<and>
   map tag_name (db_tags (snd (posts_handler sample_rt sample_db
      \<lparr>httpMethod = ''POST'', headers_authorization = Some ''Bearer your-secret-key.u1'',
       body = Some ''{"title":"T","content":"C","category":"tech","tags":["a","a","b"]}''\<rparr>))) =
     [''a'', ''b''] \<and>
   db_tags (snd (posts_handler sample_rt
      (snd (posts_handler sample_rt sample_db
        \<lparr>httpMethod = ''POST'', headers_authorization = Some ''Bearer your-secret-key.u1'',
         body = Some ''{"title":"T","content":"C","category":"tech","tags":["a","a","b"]}''\<rparr>))
      \<lparr>httpMethod = ''POST'', headers_authorization = Some ''Bearer your-secret-key.u1'',
       body = Some ''{"title":"U","content":"C","category":"tech","tags":["a"]}''\<rparr>)) =
   db_tags (snd (posts_handler sample_rt sample_db
      \<lparr>httpMethod = ''POST'', headers_authorization = Some ''Bearer your-secret-key.u1'',
       body = Some ''{"title":"T","content":"C","category":"tech","tags":["a","a","b"]}''\<rparr>))\<close>
proof -
  define ev where \<open>ev = \<lparr>httpMethod = ''POST'',
       headers_authorization = Some ''Bearer your-secret-key.u1'',
       body = Some ''{"title":"T","content":"C","category":"tech","tags":["a","a","b"]}''\<rparr>\<close>
  define ev2 where \<open>ev2 = \<lparr>httpMethod = ''POST'',
       headers_authorization = Some ''Bearer your-secret-key.u1'',
       body = Some ''{"title":"U","content":"C","category":"tech","tags":["a"]}''\<rparr>\<close>
  define r where "r = fst (posts_handler sample_rt sample_db ev)"
  define d1 where "d1 = snd (posts_handler sample_rt sample_db ev)"
  define body1 where "body1 = JObj [(''title'', JStr ''T''), (''content'', JStr ''C''),
      (''category'', JStr ''tech''), (''tags'', JArr (map JStr [''a'', ''a'', ''b'']))]"
  have e: "posts_handler sample_rt sample_db ev = (r, d1)"
    by (simp add: r_def d1_def)
  have s: "statusCode r = 201"
    unfolding r_def ev_def by code_simp
  have dt: "distinct (map tag_name (db_tags sample_db))"
    by (simp add: sample_db_def)
  have b: "JSON_parse (body_or_empty ev) = Inr body1"
    unfolding ev_def body1_def by code_simp
  have d1v: "d1 = \<lparr>db_users = [ann],
      db_posts = [\<lparr>post_id = ''i'', post_title = ''T'', post_content = ''C'',
                   post_category = ''tech'', post_authorId = ''u1'',
                   post_tags = [''a'', ''b'']\<rparr>],
      db_tags = [\<lparr>tag_id = ''ii'', tag_name = ''a''\<rparr>, \<lparr>tag_id = ''iii'', tag_name = ''b''\<rparr>],
      db_next = 4\<rparr>"
    unfolding d1_def ev_def by code_simp
  let ?P = "\<lambda>b ns p new.
           JSON_parse (body_or_empty ev) = Inr b \<and> get_prop b ''tags'' = JArr (map JStr ns) \<and>
           db_posts d1 = db_posts sample_db @ [p] \<and>
           db_tags d1 = db_tags sample_db @ new \<and>
           distinct (map tag_name (db_tags d1)) \<and>
           tag_name ` set new = set ns - tag_name ` set (db_tags sample_db) \<and>
           distinct (post_tags p) \<and> set (post_tags p) = set ns \<and>
           tag_name ` set (post_tag_rows d1 p) = set ns \<and>
           length (post_tag_rows d1 p) = card (set ns) \<and>
           (\<forall>t \<in> set (db_tags sample_db). tag_name t \<in> set ns \<longrightarrow> t \<in> set (post_tag_rows d1 p))"
  have "\<exists>b ns p new. ?P b ns p new"
    by (rule tags_get_or_create [OF e s dt])
  then obtain b' where "\<exists>ns p new. ?P b' ns p new" ..
  then obtain ns where "\<exists>p new. ?P b' ns p new" ..
  then obtain p where "\<exists>new. ?P b' ns p new" ..
  then obtain new where H: "?P b' ns p new" ..
  have 1: "JSON_parse (body_or_empty ev) = Inr b'"
    using H by (rule conjunct1)
  have 2: "get_prop b' ''tags'' = JArr (map JStr ns)"
    using H by (elim conjE)
  have 3: "db_posts d1 = db_posts sample_db @ [p]"
    using H by (elim conjE)
  have 4: "length (post_tag_rows d1 p) = card (set ns)"
    using H by (elim conjE)
  from 1 b have "b' = body1"
    by simp
  with 2 have m: "map JStr ns = map JStr [''a'', ''a'', ''b'']"
    by (simp add: body1_def)
  have "inj JStr"
    by (simp add: inj_on_def)
  then have "ns = [''a'', ''a'', ''b'']"
    using m by (simp only: inj_map_eq_map)
  then have c: "card (set ns) = 2"
    by simp
  have p: "\<exists>p. db_posts d1 = [p] \<and> length (post_tag_rows d1 p) = 2"
    using 3 4 c by (simp add: sample_db_def)
  have n: "map tag_name (db_tags d1) = [''a'', ''b'']"
    by (simp add: d1v)
  have "db_tags (snd (posts_handler sample_rt
     \<lparr>db_users = [ann],
      db_posts = [\<lparr>post_id = ''i'', post_title = ''T'', post_content = ''C'',
                   post_category = ''tech'', post_authorId = ''u1'',
                   post_tags = [''a'', ''b'']\<rparr>],
      db_tags = [\<lparr>tag_id = ''ii'', tag_name = ''a''\<rparr>, \<lparr>tag_id = ''iii'', tag_name = ''b''\<rparr>],
      db_next = 4\<rparr> ev2)) =
      [\<lparr>tag_id = ''ii'', tag_name = ''a''\<rparr>, \<lparr>tag_id = ''iii'', tag_name = ''b''\<rparr>]"
    unfolding ev2_def by code_simp
  then have k: "db_tags (snd (posts_handler sample_rt d1 ev2)) = db_tags d1"
    by (simp add: d1v)
  from s p n k show ?thesis
    unfolding r_def d1_def ev_def ev2_def by (intro conjI) assumption+
qed

section \<open>The author projection\<close>

lemma post_author_props:
  "(post_author d p = JNull \<or>
    keys (post_author d p) = [''id'', ''name'', ''email'', ''avatarUrl'']) \<and>
   ''role'' \<notin> set (keys (post_author d p)) \<and>
   get_prop (post_author d p) ''role'' = Undefined"
  by (simp add: post_author_def author_select_def split: option.splits)

lemma post_json_author: "get_prop (post_json d p) ''author'' = post_author d p"
  by (simp add: post_json_def)

lemma create_post_author:
  assumes "create_post rt d dec ev = Inr (p, d')"
  shows "db_posts d' = db_posts d @ [p] \<and>
         (\<exists>u. find (\<lambda>u. user_id u = post_authorId p) (db_users d') = Some u)"
proof -
  from create_post_Inr [OF assms] obtain b names where
    pc: "post_create rt d (get_prop b ''title'') (get_prop b ''content'')
           (get_prop b ''category'') (get_prop dec ''userId'') names = Inr (p, d')"
    by blast
  from post_create_Inr [OF pc] obtain a ns u where
    u: "find (\<lambda>u. user_id u = a) (db_users d) = Some u" and
    pa: "post_authorId p = a" and
    d': "d' = (fst (foldl (connect_or_create rt) (d\<lparr>db_next := Suc (db_next d)\<rparr>, []) ns))
                \<lparr>db_posts := db_posts d @ [p]\<rparr>"
    by auto
  show ?thesis
    using u pa by (simp add: d' fold_coc_users)
qed

lemma posts_handler_200:
  assumes "posts_handler rt d ev = (r, d')" and "statusCode r = 200"
  shows "r = \<lparr>statusCode = 200,
              resp_body = JSON_stringify (JArr (map (post_json d) (db_posts d)))\<rparr>"
  using assms
  by (auto simp: posts_handler_def Let_def split: if_splits sum.splits prod.splits)

text \<open>
  Claim C10: in every successful GET or POST response of the Resource Handler, the body
  is the text of a value (the list of stored articles, or the created article) in which
  each article's author, where the article has one, has exactly the keys id, name, email
  and avatarUrl; the created article always has one. \<open>role\<close> is never a key of it.
\<close>

theorem author_projection_fields:
  assumes "posts_handler rt d ev = (r, d')" and "statusCode r = 200 \<or> statusCode r = 201"
  shows "\<exists>v. resp_body r = JSON_stringify v \<and>
           (statusCode r = 200 \<longrightarrow> v = JArr (map (post_json d) (db_posts d))) \<and>
           (statusCode r = 201 \<longrightarrow>
              v = post_json d' (last (db_posts d')) \<and>
              keys (get_prop v ''author'') = [''id'', ''name'', ''email'', ''avatarUrl'']) \<and>
           (\<forall>a \<in> set (returned_articles v).
              (get_prop a ''author'' = JNull \<or>
               keys (get_prop a ''author'') = [''id'', ''name'', ''email'', ''avatarUrl'']) \<and>
              ''role'' \<notin> set (keys (get_prop a ''author'')) \<and>
              get_prop (get_prop a ''author'') ''role'' = Undefined)"
proof (cases "statusCode r = 201")
  case True
  from posts_handler_201 [OF assms(1) True] obtain p where
    c: "create_post rt d (decoded rt ev) ev = Inr (p, d')" and
    r: "r = \<lparr>statusCode = 201, resp_body = JSON_stringify (post_json d' p)\<rparr>"
    by blast
  from create_post_author [OF c] obtain u where
    ps: "db_posts d' = db_posts d @ [p]" and
    u: "find (\<lambda>u. user_id u = post_authorId p) (db_users d') = Some u"
    by blast
  have l: "last (db_posts d') = p"
    by (simp add: ps)
  have k: "keys (post_author d' p) = [''id'', ''name'', ''email'', ''avatarUrl'']"
    by (simp add: post_author_def u author_select_def)
  have ra: "returned_articles (post_json d' p) = [post_json d' p]"
    by (simp add: post_json_def)
  let ?v = "post_json d' p"
  have "resp_body r = JSON_stringify ?v"
    by (simp add: r)
  moreover have "statusCode r = 200 \<longrightarrow> ?v = JArr (map (post_json d) (db_posts d))"
    using True by simp
  moreover have "statusCode r = 201 \<longrightarrow>
      ?v = post_json d' (last (db_posts d')) \<and>
      keys (get_prop ?v ''author'') = [''id'', ''name'', ''email'', ''avatarUrl'']"
    by (simp add: l k post_json_author)
  moreover have "\<forall>a \<in> set (returned_articles ?v).
      (get_prop a ''author'' = JNull \<or>
       keys (get_prop a ''author'') = [''id'', ''name'', ''email'', ''avatarUrl'']) \<and>
      ''role'' \<notin> set (keys (get_prop a ''author'')) \<and>
      get_prop (get_prop a ''author'') ''role'' = Undefined"
    using post_author_props [of d' p] by (simp add: ra post_json_author)
  ultimately show ?thesis
    by (intro exI [of _ ?v] conjI)
next
  case False
  then have s: "statusCode r = 200"
    using assms(2) by simp
  note r = posts_handler_200 [OF assms(1) s]
  let ?v = "JArr (map (post_json d) (db_posts d))"
  have "resp_body r = JSON_stringify ?v"
    using r by simp
  moreover have "statusCode r = 200 \<longrightarrow> ?v = JArr (map (post_json d) (db_posts d))"
    by simp
  moreover have "statusCode r = 201 \<longrightarrow>
      ?v = post_json d' (last (db_posts d')) \<and>
      keys (get_prop ?v ''author'') = [''id'', ''name'', ''email'', ''avatarUrl'']"
    using False by simp
  moreover have "\<forall>a \<in> set (returned_articles ?v).
      (get_prop a ''author'' = JNull \<or>
       keys (get_prop a ''author'') = [''id'', ''name'', ''email'', ''avatarUrl'']) \<and>
      ''role'' \<notin> set (keys (get_prop a ''author'')) \<and>
      get_prop (get_prop a ''author'') ''role'' = Undefined"
    using post_author_props [of d] by (auto simp: post_json_author)
  ultimately show ?thesis
    by (intro exI [of _ ?v] conjI)
qed

theorem author_projection_fields_witness:
  \<open>statusCode (fst (posts_handler sample_rt sample_db
      \<lparr>httpMethod = ''POST'', headers_authorization = Some ''Bearer your-secret-key.u1'',
       body = Some ''{"title":"T","content":"C","category":"tech","tags":["a"]}''\<rparr>)) = 201 \<and>
   (\<exists>v. resp_body (fst (posts_handler sample_rt sample_db
      \<lparr>httpMethod = ''POST'', headers_authorization = Some ''Bearer your-secret-key.u1'',
       body = Some ''{"title":"T","content":"C","category":"tech","tags":["a"]}''\<rparr>)) =
        JSON_stringify v \<and>
      keys (get_prop v ''author'') = [''id'', ''name'', ''email'', ''avatarUrl''])\<close>
proof -
  define ev where \<open>ev = \<lparr>httpMethod = ''POST'',
       headers_authorization = Some ''Bearer your-secret-key.u1'',
       body = Some ''{"title":"T","content":"C","category":"tech","tags":["a"]}''\<rparr>\<close>
  define r where "r = fst (posts_handler sample_rt sample_db ev)"
  define d1 where "d1 = snd (posts_handler sample_rt sample_db ev)"
  have e: "posts_handler sample_rt sample_db ev = (r, d1)"
    by (simp add: r_def d1_def)
  have s: "statusCode r = 201"
    unfolding r_def ev_def by code_simp
  then have s': "statusCode r = 200 \<or> statusCode r = 201"
    by simp
  let ?P = "\<lambda>v. resp_body r = JSON_stringify v \<and>
           (statusCode r = 200 \<longrightarrow> v = JArr (map (post_json sample_db) (db_posts sample_db))) \<and>
           (statusCode r = 201 \<longrightarrow>
              v = post_json d1 (last (db_posts d1)) \<and>
              keys (get_prop v ''author'') = [''id'', ''name'', ''email'', ''avatarUrl'']) \<and>
           (\<forall>a \<in> set (returned_articles v).
              (get_prop a ''author'' = JNull \<or>
               keys (get_prop a ''author'') = [''id'', ''name'', ''email'', ''avatarUrl'']) \<and>
              ''role'' \<notin> set (keys (get_prop a ''author'')) \<and>
              get_prop (get_prop a ''author'') ''role'' = Undefined)"
  have "\<exists>v. ?P v"
    by (rule author_projection_fields [OF e s'])
  then obtain v where H: "?P v" ..
  have 1: "resp_body r = JSON_stringify v"
    using H by (rule conjunct1)
  have 2: "keys (get_prop v ''author'') = [''id'', ''name'', ''email'', ''avatarUrl'']"
    using H s by blast
  have "\<exists>v. resp_body r = JSON_stringify v \<and>
            keys (get_prop v ''author'') = [''id'', ''name'', ''email'', ''avatarUrl'']"
    using 1 2 by (intro exI [of _ v] conjI)
  with s show ?thesis
    unfolding r_def ev_def by (intro conjI) assumption+
qed

end
